theory Spec2Isabelle
  imports Main "HOL-Library.AList" "HOL-Library.Sublist"
begin

section \<open>Values, documents and errors\<close>

text \<open>
  Go's \<^verbatim>\<open>interface{}\<close> values that travel through the handler (identifiers, payload
  values, filter operands) are modelled by one closed datatype. \<^verbatim>\<open>VOid h\<close> is a
  \<^verbatim>\<open>bson.ObjectId\<close> whose \<^verbatim>\<open>Hex()\<close> is \<open>h\<close>. A \<^verbatim>\<open>bson.M\<close> or a
  \<^verbatim>\<open>map[string]interface{}\<close> is an association list: the assignment \<^verbatim>\<open>b[k] = v\<close> is
  \<open>AList.update k v b\<close> (replace the binding of \<open>k\<close> or add one), a lookup is \<open>map_of\<close>.
  A list built that way has distinct keys, as a Go map has.
\<close>

datatype val =
    VNil
  | VBool bool
  | VInt int
  | VStr string
  | VOid string
  | VList "val list"
  | VDoc "(string \<times> val) list"

type_synonym bsonM = "(string \<times> val) list"

text \<open>
  Go's \<^verbatim>\<open>error\<close> values met by the handler: the sentinels of the resource package, the
  two errors of a context, and the errors of the mgo driver (\<^verbatim>\<open>mgo.ErrNotFound\<close>, a
  duplicate-key error, for which \<^verbatim>\<open>mgo.IsDup\<close> is true, and any other error).
  A nil error is \<open>None\<close>. \<open>NilMapPanic\<close> is no error value: it is the run-time panic
  "assignment to entry in nil map", after which the call does not return.
\<close>

datatype error =
    ErrNotImplemented
  | ErrNotFound
  | ErrConflict
  | Canceled
  | DeadlineExceeded
  | MgoErrNotFound
  | MgoDup
  | MgoOther string
  | NilMapPanic

fun IsDup :: "error option \<Rightarrow> bool" where
  "IsDup (Some MgoDup) = True"
| "IsDup _ = False"

section \<open>Queries\<close>

text \<open>
  \<^verbatim>\<open>*regexp.Regexp\<close>: a compiled pattern, of which the translator only reads
  \<^verbatim>\<open>String()\<close>, the source text it was compiled from.
\<close>

datatype regexp = Regexp string

fun String :: "regexp \<Rightarrow> string" where
  "String (Regexp src) = src"

text \<open>
  The implementations of \<^verbatim>\<open>query.Expression\<close>. The first fourteen are the cases of the
  type switch of \<^verbatim>\<open>translatePredicate\<close>. \<open>SubPredicate\<close> is a \<^verbatim>\<open>query.Predicate\<close>
  used as an expression (the type implements the interface, and the tests of the
  repository place it under \<^verbatim>\<open>query.And\<close> and \<^verbatim>\<open>query.Or\<close>); \<open>Unsupported\<close> is any other
  implementation, such as the \<^verbatim>\<open>UnsupportedExpression\<close> of the tests.
\<close>

datatype expression =
    And "expression list"
  | Or "expression list"
  | ElemMatch string "expression list"
  | In string "val list"
  | NotIn string "val list"
  | Exist string
  | NotExist string
  | Equal string val
  | NotEqual string val
  | GreaterThan string val
  | GreaterOrEqual string val
  | LowerThan string val
  | LowerOrEqual string val
  | Regex string regexp
  | SubPredicate "expression list"
  | Unsupported

record sortField =
  Name :: string
  Reversed :: bool

record window =
  Offset :: int
  Limit :: int

record query =
  Predicate :: "expression list"
  Sort :: "sortField list"
  Window :: "window option"

section \<open>The query translator\<close>

definition getField :: "string \<Rightarrow> string" where
  "getField f = (if f = ''id'' then ''_id'' else f)"

text \<open>
  The inner loops of \<^verbatim>\<open>translatePredicate\<close> return at the first error and otherwise
  append the translated document: \<open>collect\<close> over the translated operands.
\<close>

fun collect :: "(error + 'a) list \<Rightarrow> error + 'a list" where
  "collect [] = Inr []"
| "collect (r # rs) =
     (case r of
        Inl err \<Rightarrow> Inl err
      | Inr sb \<Rightarrow> (case collect rs of Inl err \<Rightarrow> Inl err | Inr s \<Rightarrow> Inr (sb # s)))"

text \<open>The loop \<^verbatim>\<open>for k, v := range sb { s[k] = v }\<close> of the \<^verbatim>\<open>ElemMatch\<close> case.\<close>

definition mergeInto :: "bsonM \<Rightarrow> bsonM \<Rightarrow> bsonM" where
  "mergeInto sb s = fold (\<lambda>(k, v) s. AList.update k v s) sb s"

text \<open>
  \<^verbatim>\<open>translatePredicate\<close>: \<open>translatePredicateFrom b q\<close> is the loop over the
  expressions of \<open>q\<close> with the document \<open>b\<close> built so far; the recursive calls
  \<^verbatim>\<open>translatePredicate(query.Predicate{subExp})\<close> start from the empty document on a
  one-element predicate.
\<close>

fun translatePredicateFrom :: "bsonM \<Rightarrow> expression list \<Rightarrow> error + bsonM" where
  "translatePredicateFrom b [] = Inr b"
| "translatePredicateFrom b (And t # q) =
     (case collect (map (\<lambda>subExp. translatePredicateFrom [] [subExp]) t) of
        Inl err \<Rightarrow> Inl err
      | Inr s \<Rightarrow> translatePredicateFrom (AList.update ''$and'' (VList (map VDoc s)) b) q)"
| "translatePredicateFrom b (Or t # q) =
     (case collect (map (\<lambda>subExp. translatePredicateFrom [] [subExp]) t) of
        Inl err \<Rightarrow> Inl err
      | Inr s \<Rightarrow> translatePredicateFrom (AList.update ''$or'' (VList (map VDoc s)) b) q)"
| "translatePredicateFrom b (ElemMatch f exps # q) =
     (case collect (map (\<lambda>subExp. translatePredicateFrom [] [subExp]) exps) of
        Inl err \<Rightarrow> Inl err
      | Inr sbs \<Rightarrow>
          translatePredicateFrom
            (AList.update (getField f) (VDoc [(''$elemMatch'', VDoc (fold mergeInto sbs []))]) b) q)"
| "translatePredicateFrom b (In f vs # q) =
     translatePredicateFrom (AList.update (getField f) (VDoc [(''$in'', VList vs)]) b) q"
| "translatePredicateFrom b (NotIn f vs # q) =
     translatePredicateFrom (AList.update (getField f) (VDoc [(''$nin'', VList vs)]) b) q"
| "translatePredicateFrom b (Exist f # q) =
     translatePredicateFrom (AList.update (getField f) (VDoc [(''$exists'', VBool True)]) b) q"
| "translatePredicateFrom b (NotExist f # q) =
     translatePredicateFrom (AList.update (getField f) (VDoc [(''$exists'', VBool False)]) b) q"
| "translatePredicateFrom b (Equal f v # q) =
     translatePredicateFrom (AList.update (getField f) v b) q"
| "translatePredicateFrom b (NotEqual f v # q) =
     translatePredicateFrom (AList.update (getField f) (VDoc [(''$ne'', v)]) b) q"
| "translatePredicateFrom b (GreaterThan f v # q) =
     translatePredicateFrom (AList.update (getField f) (VDoc [(''$gt'', v)]) b) q"
| "translatePredicateFrom b (GreaterOrEqual f v # q) =
     translatePredicateFrom (AList.update (getField f) (VDoc [(''$gte'', v)]) b) q"
| "translatePredicateFrom b (LowerThan f v # q) =
     translatePredicateFrom (AList.update (getField f) (VDoc [(''$lt'', v)]) b) q"
| "translatePredicateFrom b (LowerOrEqual f v # q) =
     translatePredicateFrom (AList.update (getField f) (VDoc [(''$lte'', v)]) b) q"
| "translatePredicateFrom b (Regex f re # q) =
     translatePredicateFrom (AList.update (getField f) (VDoc [(''$regex'', VStr (String re))]) b) q"
| "translatePredicateFrom b (SubPredicate p # q) = Inl ErrNotImplemented"
| "translatePredicateFrom b (Unsupported # q) = Inl ErrNotImplemented"

definition translatePredicate :: "expression list \<Rightarrow> error + bsonM" where
  "translatePredicate q = translatePredicateFrom [] q"

definition getQuery :: "query \<Rightarrow> error + bsonM" where
  "getQuery q = translatePredicate (Predicate q)"

text \<open>
  \<^verbatim>\<open>getSort\<close>: the loop writes \<^verbatim>\<open>s[i]\<close> of a slice made with the length of the sort
  list.
\<close>

fun getSort_loop :: "nat \<Rightarrow> sortField list \<Rightarrow> string list \<Rightarrow> string list" where
  "getSort_loop i [] s = s"
| "getSort_loop i (sf # rest) s =
     getSort_loop (Suc i) rest
       (if Reversed sf then s[i := ''-'' @ getField (Name sf)]
        else s[i := getField (Name sf)])"

definition getSort :: "query \<Rightarrow> string list" where
  "getSort q =
     (if length (Sort q) = 0 then [''_id'']
      else getSort_loop 0 (Sort q) (replicate (length (Sort q)) ''''))"


text \<open>
  The predicate trees of the specification: comparisons, membership, existence and
  pattern-match nodes, element-match, and the n-ary \<^verbatim>\<open>And\<close> and \<^verbatim>\<open>Or\<close>, "each operand
  itself a sub-expression or nested conjunction of expressions". A list of bare
  expressions is supported when its expressions are; only a node of another kind is
  not.
\<close>

fun supported :: "expression \<Rightarrow> bool" where
  "supported (And t) = (\<forall>subExp \<in> set t. supported subExp)"
| "supported (Or t) = (\<forall>subExp \<in> set t. supported subExp)"
| "supported (ElemMatch f exps) = (\<forall>subExp \<in> set exps. supported subExp)"
| "supported (SubPredicate p) = (\<forall>subExp \<in> set p. supported subExp)"
| "supported Unsupported = False"
| "supported _ = True"

section \<open>Native queries\<close>

text \<open>
  An \<^verbatim>\<open>*mgo.Query\<close> under construction: the filter given to \<^verbatim>\<open>Collection.Find\<close> and what
  \<^verbatim>\<open>Sort\<close>, \<^verbatim>\<open>Skip\<close>, \<^verbatim>\<open>Limit\<close> and \<^verbatim>\<open>Select\<close> were called with (\<open>None\<close>: never called).
  \<^verbatim>\<open>Collection.FindId(id)\<close> is \<^verbatim>\<open>Find\<close> with the filter \<^verbatim>\<open>{_id: id}\<close>.
\<close>

record mquery =
  mq_filter :: bsonM
  mq_sort :: "string list"
  mq_skip :: "int option"
  mq_limit :: "int option"
  mq_select :: "bsonM option"

definition mgoFind :: "bsonM \<Rightarrow> mquery" where
  "mgoFind qry = \<lparr>mq_filter = qry, mq_sort = [], mq_skip = None, mq_limit = None, mq_select = None\<rparr>"

definition mgoFindId :: "val \<Rightarrow> mquery" where
  "mgoFindId i = mgoFind [(''_id'', i)]"

definition mgoSort :: "string list \<Rightarrow> mquery \<Rightarrow> mquery" where
  "mgoSort srt mq = mq\<lparr>mq_sort := srt\<rparr>"

definition mgoSkip :: "int \<Rightarrow> mquery \<Rightarrow> mquery" where
  "mgoSkip n mq = mq\<lparr>mq_skip := Some n\<rparr>"

definition mgoLimit :: "int \<Rightarrow> mquery \<Rightarrow> mquery" where
  "mgoLimit n mq = mq\<lparr>mq_limit := Some n\<rparr>"

definition mgoSelect :: "bsonM \<Rightarrow> mquery \<Rightarrow> mquery" where
  "mgoSelect sel mq = mq\<lparr>mq_select := Some sel\<rparr>"

definition applyWindow :: "mquery \<Rightarrow> window \<Rightarrow> mquery" where
  "applyWindow mq w =
     (let mq = (if Offset w > 0 then mgoSkip (Offset w) mq else mq);
          mq = (if Limit w > -1 then mgoLimit (Limit w) mq else mq)
      in mq)"

section \<open>Items and their store documents\<close>

text \<open>
  \<^verbatim>\<open>resource.Item\<close>, \<^verbatim>\<open>resource.ItemList\<close> and the \<^verbatim>\<open>mongoItem\<close> of the handler. A
  \<^verbatim>\<open>time.Time\<close> is an integer timestamp. Go's \<^verbatim>\<open>int\<close> is modelled by \<open>int\<close>: the
  only arithmetic of the handler is \<^verbatim>\<open>Offset + len(Items)\<close>. The payload of a
  \<^verbatim>\<open>mongoItem\<close> is written to by \<^verbatim>\<open>newItem\<close>, and writing to a nil map panics where
  reading one does not: it is \<open>None\<close> for the nil map and \<open>Some\<close> of the entries
  otherwise.
\<close>

record item =
  ID :: val
  ETag :: string
  Updated :: int
  Payload :: bsonM

record itemList =
  Total :: int
  ListLimit :: int
  Items :: "item list"

record mongoItem =
  m_ID :: val
  m_ETag :: string
  m_Updated :: int
  m_Payload :: "bsonM option"

definition newMongoItem :: "item \<Rightarrow> mongoItem" where
  "newMongoItem i =
     (let p = fold (\<lambda>(k, v) p. if k \<noteq> ''id'' then AList.update k v p else p) (Payload i) []
      in \<lparr>m_ID = ID i, m_ETag = ETag i, m_Updated = Updated i, m_Payload = Some p\<rparr>)"

text \<open>
  \<^verbatim>\<open>newItem\<close>. \<^verbatim>\<open>fmt.Sprint\<close> of the Go standard library is the parameter \<open>sprint\<close>.
  Its first statement, \<^verbatim>\<open>i.Payload["id"] = i.ID\<close>, panics on a nil payload.
\<close>

definition newItem :: "(val \<Rightarrow> string) \<Rightarrow> mongoItem \<Rightarrow> error + item" where
  "newItem sprint i =
     (case m_Payload i of
        None \<Rightarrow> Inl NilMapPanic
      | Some p \<Rightarrow>
          (let payload = AList.update ''id'' (m_ID i) p;
               it = \<lparr>ID = m_ID i, ETag = m_ETag i, Updated = m_Updated i, Payload = payload\<rparr>
           in if ETag it = [] then
                (case m_ID i of
                   VOid hex \<Rightarrow> Inr (it\<lparr>ETag := ''p-'' @ hex\<rparr>)
                 | _ \<Rightarrow> Inr (it\<lparr>ETag := ''p-'' @ sprint (m_ID i)\<rparr>))
              else Inr it))"

section \<open>The handler\<close>

text \<open>
  What the handler receives from outside the repository, over a store state \<open>'s\<close>:
  \<^verbatim>\<open>fmt.Sprint\<close>; the error of the \<^verbatim>\<open>Handler\<close> function itself (\<^verbatim>\<open>m(ctx)\<close>); and the
  operations of the mgo collection. \<open>mgoIter\<close> gives the documents that \<^verbatim>\<open>Iter.Next\<close>
  decodes one after the other, and the error of \<^verbatim>\<open>Iter.Close\<close>; \<open>mgoRemoveAll\<close> gives
  \<^verbatim>\<open>info.Removed\<close> (\<open>None\<close> when \<^verbatim>\<open>info\<close> is nil) and the error. The deadline of the
  context only sets time-outs of the driver, whose errors are arbitrary here.
\<close>

record 's env =
  Sprint :: "val \<Rightarrow> string"
  handler :: "error option"
  mgoInsert :: "mongoItem list \<Rightarrow> 's \<Rightarrow> error option \<times> 's"
  mgoUpdate :: "bsonM \<Rightarrow> mongoItem \<Rightarrow> 's \<Rightarrow> error option \<times> 's"
  mgoRemove :: "bsonM \<Rightarrow> 's \<Rightarrow> error option \<times> 's"
  mgoCount :: "mquery \<Rightarrow> 's \<Rightarrow> int \<times> error option"
  mgoIter :: "mquery \<Rightarrow> 's \<Rightarrow> mongoItem list \<times> error option"
  mgoRemoveAll :: "bsonM \<Rightarrow> 's \<Rightarrow> (int option \<times> error option) \<times> 's"

text \<open>
  A \<^verbatim>\<open>context.Context\<close>: \<open>ctx t\<close> is what \<^verbatim>\<open>ctx.Err()\<close> returns once \<open>t\<close> store
  round trips of the running operation are over (in the loop of \<^verbatim>\<open>Find\<close>: once \<open>t\<close>
  documents were received). \<open>ctx 0\<close> is its value on entry.
\<close>

type_synonym Context = "nat \<Rightarrow> error option"

text \<open>\<^verbatim>\<open>Handler.c\<close>: the error it returns, \<open>None\<close> when it returns the collection.\<close>

definition Handler_c :: "'s env \<Rightarrow> Context \<Rightarrow> error option" where
  "Handler_c env ctx = (case ctx 0 of Some err \<Rightarrow> Some err | None \<Rightarrow> handler env)"

definition Insert :: "'s env \<Rightarrow> Context \<Rightarrow> item list \<Rightarrow> 's \<Rightarrow> error option \<times> 's" where
  "Insert env ctx items s =
     (let mItems = map newMongoItem items in
      case Handler_c env ctx of
        Some err \<Rightarrow> (Some err, s)
      | None \<Rightarrow>
          (let (err, s') = mgoInsert env mItems s;
               err = (if IsDup err then Some ErrConflict else err)
           in if ctx 1 \<noteq> None then (ctx 1, s') else (err, s')))"

definition Update :: "'s env \<Rightarrow> Context \<Rightarrow> item \<Rightarrow> item \<Rightarrow> 's \<Rightarrow> error option \<times> 's" where
  "Update env ctx it original s =
     (let mItem = newMongoItem it in
      case Handler_c env ctx of
        Some err \<Rightarrow> (Some err, s)
      | None \<Rightarrow>
          (let sel = [(''_id'', ID original)];
               sel = (if prefix ''p-'' (ETag original)
                      then AList.update ''_etag'' (VDoc [(''$exists'', VBool False)]) sel
                      else AList.update ''_etag'' (VStr (ETag original)) sel);
               (err, s') = mgoUpdate env sel mItem s
           in if err = Some MgoErrNotFound then
                (let (count, err) = mgoCount env (mgoFindId (ID original)) s' in
                 if err \<noteq> None then (err, s')
                 else if count = 0 then (Some ErrNotFound, s')
                 else if ctx 2 \<noteq> None then (ctx 2, s')
                 else (Some ErrConflict, s'))
              else (err, s')))"

definition Delete :: "'s env \<Rightarrow> Context \<Rightarrow> item \<Rightarrow> 's \<Rightarrow> error option \<times> 's" where
  "Delete env ctx it s =
     (case Handler_c env ctx of
        Some err \<Rightarrow> (Some err, s)
      | None \<Rightarrow>
          (let sel = [(''_id'', ID it)];
               sel = (if prefix ''p-'' (ETag it)
                      then AList.update ''_etag'' (VDoc [(''$exists'', VBool False)]) sel
                      else AList.update ''_etag'' (VStr (ETag it)) sel);
               (err, s') = mgoRemove env sel s
           in if err = Some MgoErrNotFound then
                (let (count, err) = mgoCount env (mgoFindId (ID it)) s' in
                 if err \<noteq> None then (err, s')
                 else if count = 0 then (Some ErrNotFound, s')
                 else if ctx 2 \<noteq> None then (ctx 2, s')
                 else (Some ErrConflict, s'))
              else (err, s')))"

text \<open>\<^verbatim>\<open>selectIDs\<close>: the loop appends the \<^verbatim>\<open>_id\<close> of every document received.\<close>

definition selectIDs :: "'s env \<Rightarrow> mquery \<Rightarrow> 's \<Rightarrow> error + val list" where
  "selectIDs env mq s =
     (let (docs, closeErr) = mgoIter env (mgoSelect [(''_id'', VInt 1)] mq) s;
          ids = fold (\<lambda>tmp ids. ids @ [m_ID tmp]) docs []
      in case closeErr of Some err \<Rightarrow> Inl err | None \<Rightarrow> Inr ids)"

text \<open>
  \<^verbatim>\<open>Clear\<close>. The last \<^verbatim>\<open>ctx.Err()\<close> comes after one round trip without a window and
  after two with one.
\<close>

definition Clear :: "'s env \<Rightarrow> Context \<Rightarrow> query \<Rightarrow> 's \<Rightarrow> (int \<times> error option) \<times> 's" where
  "Clear env ctx q s =
     (case getQuery q of
        Inl err \<Rightarrow> ((0, Some err), s)
      | Inr qry \<Rightarrow>
     (case Handler_c env ctx of
        Some err \<Rightarrow> ((0, Some err), s)
      | None \<Rightarrow>
     (case (case Window q of
              None \<Rightarrow> Inr (qry, 1)
            | Some w \<Rightarrow>
                (let srt = getSort q;
                     mq = applyWindow (mgoSort srt (mgoFind qry)) w
                 in case selectIDs env mq s of
                      Inr ids \<Rightarrow> Inr ([(''_id'', VDoc [(''$in'', VList ids)])], 2)
                    | Inl err \<Rightarrow> Inl err)) of
        Inl err \<Rightarrow> ((0, Some err), s)
      | Inr (qry, trips) \<Rightarrow>
          (let ((info, err), s') = mgoRemoveAll env qry s;
               err = (if err = None then ctx trips else err)
           in case info of
                None \<Rightarrow> ((0, err), s')
              | Some removed \<Rightarrow> ((removed, err), s')))))"

definition Count :: "'s env \<Rightarrow> Context \<Rightarrow> query \<Rightarrow> 's \<Rightarrow> int \<times> error option" where
  "Count env ctx q s =
     (case getQuery q of
        Inl err \<Rightarrow> (-1, Some err)
      | Inr qry \<Rightarrow>
     (case Handler_c env ctx of
        Some err \<Rightarrow> (-1, Some err)
      | None \<Rightarrow> mgoCount env (mgoFind qry) s))"

text \<open>
  The loop of \<^verbatim>\<open>Find\<close> over the documents received: the context is checked after each
  one, \<open>k\<close> counts the documents received so far. A panic of \<^verbatim>\<open>newItem\<close> ends the call.
\<close>

fun findLoop :: "Context \<Rightarrow> (val \<Rightarrow> string) \<Rightarrow> nat \<Rightarrow> mongoItem list \<Rightarrow> item list \<Rightarrow> error + item list" where
  "findLoop ctx sprint k [] acc = Inr acc"
| "findLoop ctx sprint k (mItem # rest) acc =
     (case ctx (Suc k) of
        Some err \<Rightarrow> Inl err
      | None \<Rightarrow>
          (case newItem sprint mItem of
             Inl panic \<Rightarrow> Inl panic
           | Inr it \<Rightarrow> findLoop ctx sprint (Suc k) rest (acc @ [it])))"

definition Find :: "'s env \<Rightarrow> Context \<Rightarrow> query \<Rightarrow> 's \<Rightarrow> error + itemList" where
  "Find env ctx q s =
     (if (case Window q of None \<Rightarrow> False | Some w \<Rightarrow> Limit w = 0) then
        (case Count env ctx q s of
           (n, Some err) \<Rightarrow> Inl err
         | (n, None) \<Rightarrow>
             Inr \<lparr>Total = n, ListLimit = (case Window q of None \<Rightarrow> 0 | Some w \<Rightarrow> Limit w),
                  Items = []\<rparr>)
      else
     (case getQuery q of
        Inl err \<Rightarrow> Inl err
      | Inr qry \<Rightarrow>
     (let srt = getSort q in
      case Handler_c env ctx of
        Some err \<Rightarrow> Inl err
      | None \<Rightarrow>
          (let mq = mgoSort srt (mgoFind qry);
               (mq, limit) = (case Window q of
                                None \<Rightarrow> (mq, -1)
                              | Some w \<Rightarrow> (applyWindow mq w, Limit w));
               (docs, closeErr) = mgoIter env mq s
           in case findLoop ctx (Sprint env) 0 docs [] of
                Inl err \<Rightarrow> Inl err
              | Inr items \<Rightarrow>
                 (case closeErr of
                    Some err \<Rightarrow> Inl err
                  | None \<Rightarrow>
                      Inr \<lparr>Total =
                             (if limit < 0 \<or> int (length items) < limit then
                                (if (case Window q of None \<Rightarrow> False | Some w \<Rightarrow> Offset w > 0) then
                                   (if length items > 0
                                    then (case Window q of None \<Rightarrow> 0 | Some w \<Rightarrow> Offset w)
                                           + int (length items)
                                    else -1)
                                 else int (length items))
                              else -1),
                           ListLimit = limit, Items = items\<rparr>)))))"

section \<open>A reference model of the store\<close>

text \<open>
  One MongoDB collection behind mgo, as far as the handler relies on it: a list of
  documents in natural order, with the contract the specification gives the driver
  (duplicate-key and no-document-matched errors, cursor iteration). A document has its
  \<^verbatim>\<open>_id\<close>, its \<^verbatim>\<open>_etag\<close> field when it has one, \<^verbatim>\<open>_updated\<close>, and the other fields. Which
  documents a filter selects (\<open>sem\<close>) and how a sort specification orders two documents
  (\<open>ord\<close>) are parameters. The cursor skips, then limits, and a limit of zero is no
  limit: "MongoDB will return all records on Limit=0", as the comment in \<^verbatim>\<open>Find\<close> says.
\<close>

record doc =
  d_id :: val
  d_etag :: "string option"
  d_updated :: int
  d_fields :: bsonM

text \<open>
  The struct tags of \<^verbatim>\<open>mongoItem\<close>: what bson writes and reads. The payload is inlined:
  a nil or empty payload writes no field, and its keys are taken not to be the three
  reserved ones. Reading starts from the zero \<^verbatim>\<open>mongoItem\<close>: a document without an
  \<^verbatim>\<open>_etag\<close> field is read with the empty ETag, and the payload map is only made for the
  first field beside \<^verbatim>\<open>_id\<close>, \<^verbatim>\<open>_etag\<close> and \<^verbatim>\<open>_updated\<close>, so a document without one is
  read with a nil payload.
\<close>

definition marshal :: "mongoItem \<Rightarrow> doc" where
  "marshal m =
     \<lparr>d_id = m_ID m, d_etag = Some (m_ETag m), d_updated = m_Updated m,
      d_fields = (case m_Payload m of None \<Rightarrow> [] | Some p \<Rightarrow> p)\<rparr>"

definition unmarshal :: "doc \<Rightarrow> mongoItem" where
  "unmarshal d =
     \<lparr>m_ID = d_id d, m_ETag = (case d_etag d of None \<Rightarrow> [] | Some e \<Rightarrow> e),
      m_Updated = d_updated d,
      m_Payload = (if d_fields d = [] then None else Some (d_fields d))\<rparr>"

fun insertAll :: "doc list \<Rightarrow> doc list \<Rightarrow> error option \<times> doc list" where
  "insertAll [] s = (None, s)"
| "insertAll (d # ds) s =
     (if d_id d \<in> set (map d_id s) then (Some MgoDup, s) else insertAll ds (s @ [d]))"

fun replaceFirst :: "(doc \<Rightarrow> bool) \<Rightarrow> doc \<Rightarrow> doc list \<Rightarrow> doc list" where
  "replaceFirst P d' [] = []"
| "replaceFirst P d' (d # ds) = (if P d then d' # ds else d # replaceFirst P d' ds)"

fun removeFirst :: "(doc \<Rightarrow> bool) \<Rightarrow> doc list \<Rightarrow> doc list" where
  "removeFirst P [] = []"
| "removeFirst P (d # ds) = (if P d then ds else d # removeFirst P ds)"

fun insortDoc :: "(doc \<Rightarrow> doc \<Rightarrow> bool) \<Rightarrow> doc \<Rightarrow> doc list \<Rightarrow> doc list" where
  "insortDoc le d [] = [d]"
| "insortDoc le d (x # xs) = (if le d x then d # x # xs else x # insortDoc le d xs)"

definition sortDocs :: "(doc \<Rightarrow> doc \<Rightarrow> bool) \<Rightarrow> doc list \<Rightarrow> doc list" where
  "sortDocs le ds = foldr (insortDoc le) ds []"

definition cursor ::
  "(bsonM \<Rightarrow> doc \<Rightarrow> bool) \<Rightarrow> (string list \<Rightarrow> doc \<Rightarrow> doc \<Rightarrow> bool) \<Rightarrow> mquery \<Rightarrow> doc list \<Rightarrow> doc list" where
  "cursor sem ord mq s =
     (let ds = sortDocs (ord (mq_sort mq)) (filter (sem (mq_filter mq)) s);
          ds = (case mq_skip mq of None \<Rightarrow> ds | Some n \<Rightarrow> drop (nat n) ds);
          ds = (case mq_limit mq of
                  None \<Rightarrow> ds
                | Some n \<Rightarrow> if n = 0 then ds else take (nat \<bar>n\<bar>) ds)
      in ds)"

definition memCollection ::
  "(bsonM \<Rightarrow> doc \<Rightarrow> bool) \<Rightarrow> (string list \<Rightarrow> doc \<Rightarrow> doc \<Rightarrow> bool) \<Rightarrow> (val \<Rightarrow> string) \<Rightarrow> doc list env" where
  "memCollection sem ord sprint =
     \<lparr>Sprint = sprint,
      handler = None,
      mgoInsert = (\<lambda>ms s. insertAll (map marshal ms) s),
      mgoUpdate = (\<lambda>sel m s.
         case find (sem sel) s of
           None \<Rightarrow> (Some MgoErrNotFound, s)
         | Some d \<Rightarrow>
             if m_ID m \<noteq> d_id d then (Some (MgoOther ''_id is immutable''), s)
             else (None, replaceFirst (sem sel) (marshal m) s)),
      mgoRemove = (\<lambda>sel s.
         case find (sem sel) s of
           None \<Rightarrow> (Some MgoErrNotFound, s)
         | Some d \<Rightarrow> (None, removeFirst (sem sel) s)),
      mgoCount = (\<lambda>mq s. (int (length (cursor sem ord mq s)), None)),
      mgoIter = (\<lambda>mq s. (map unmarshal (cursor sem ord mq s), None)),
      mgoRemoveAll = (\<lambda>sel s.
         ((Some (int (length (filter (sem sel) s))), None), filter (\<lambda>d. \<not> sem sel d) s))\<rparr>"

text \<open>
  A filter semantics and an order for the concrete examples: equality on a field,
  \<^verbatim>\<open>$exists\<close> and \<^verbatim>\<open>$in\<close> (any other operator selects nothing); integers by value and
  strings by byte order, on the first sort key that tells two documents apart.
\<close>

definition docField :: "doc \<Rightarrow> string \<Rightarrow> val option" where
  "docField d k =
     (if k = ''_id'' then Some (d_id d)
      else if k = ''_etag'' then map_option VStr (d_etag d)
      else if k = ''_updated'' then Some (VInt (d_updated d))
      else map_of (d_fields d) k)"

definition basicCond :: "val \<Rightarrow> val option \<Rightarrow> bool" where
  "basicCond c fv =
     (case c of
        VDoc [(opr, arg)] \<Rightarrow>
          (if opr = ''$exists'' then arg = VBool (fv \<noteq> None)
           else if opr = ''$in'' then
             (case arg of
                VList vs \<Rightarrow> (case fv of Some v \<Rightarrow> v \<in> set vs | None \<Rightarrow> False)
              | _ \<Rightarrow> False)
           else False)
      | _ \<Rightarrow> fv = Some c)"

definition basicSem :: "bsonM \<Rightarrow> doc \<Rightarrow> bool" where
  "basicSem sel d = (\<forall>(k, c) \<in> set sel. basicCond c (docField d k))"

fun strLe :: "string \<Rightarrow> string \<Rightarrow> bool" where
  "strLe [] ys = True"
| "strLe (x # xs) [] = False"
| "strLe (x # xs) (y # ys) =
     ((of_char x :: nat) < of_char y \<or> (x = y \<and> strLe xs ys))"

fun valLe :: "val option \<Rightarrow> val option \<Rightarrow> bool" where
  "valLe (Some (VInt a)) (Some (VInt b)) = (a \<le> b)"
| "valLe (Some (VStr a)) (Some (VStr b)) = strLe a b"
| "valLe None y = True"
| "valLe x y = False"

fun basicOrd :: "string list \<Rightarrow> doc \<Rightarrow> doc \<Rightarrow> bool" where
  "basicOrd [] a b = True"
| "basicOrd (k # ks) a b =
     (let desc = prefix ''-'' k;
          f = (if desc then drop 1 k else k);
          x = docField a f;
          y = docField b f
      in if x = y then basicOrd ks a b
         else if desc then valLe y x else valLe x y)"

section \<open>Concrete stores, contexts and queries\<close>

text \<open>
  The inputs of the repository's tests (\<^verbatim>\<open>TestUpdate\<close>, \<^verbatim>\<open>TestClearLimit\<close>), on the
  reference model of the store. \<open>cancelledAfter n\<close> is a context cancelled once \<open>n\<close>
  round trips are over, \<open>background\<close> one that never is. \<open>exampleSprint\<close> is
  \<^verbatim>\<open>fmt.Sprint\<close> on the string identifiers of these inputs, the only values it is
  applied to here.
\<close>

definition exampleSprint :: "val \<Rightarrow> string" where
  "exampleSprint v = (case v of VStr s \<Rightarrow> s | _ \<Rightarrow> [])"

definition memEnv :: "doc list env" where
  "memEnv = memCollection basicSem basicOrd exampleSprint"

definition background :: Context where
  "background t = None"

definition cancelledAfter :: "nat \<Rightarrow> Context" where
  "cancelledAfter n t = (if t < n then None else Some Canceled)"

definition oldItem :: item where
  "oldItem = \<lparr>ID = VStr ''1234'', ETag = ''etag1'', Updated = 7,
              Payload = [(''id'', VStr ''1234''), (''foo'', VStr ''bar'')]\<rparr>"

definition updatedItem :: item where
  "updatedItem = \<lparr>ID = VStr ''1234'', ETag = ''etag2'', Updated = 7,
                  Payload = [(''id'', VStr ''1234''), (''foo'', VStr ''baz'')]\<rparr>"

definition storedUpdated :: "doc list" where
  "storedUpdated = [\<lparr>d_id = VStr ''1234'', d_etag = Some ''etag2'', d_updated = 7,
                     d_fields = [(''foo'', VStr ''baz'')]\<rparr>]"

definition namedDoc :: "string \<Rightarrow> string \<Rightarrow> doc" where
  "namedDoc i n = \<lparr>d_id = VStr i, d_etag = Some [], d_updated = 0, d_fields = [(''name'', VStr n)]\<rparr>"

definition fourDocs :: "doc list" where
  "fourDocs = [namedDoc ''1'' ''a'', namedDoc ''2'' ''b'', namedDoc ''3'' ''d'', namedDoc ''4'' ''c'']"

definition nameQuery :: "window option \<Rightarrow> query" where
  "nameQuery w = \<lparr>Predicate = [In ''name'' [VStr ''c'', VStr ''d'']],
                  Sort = [\<lparr>Name = ''name'', Reversed = False\<rparr>], Window = w\<rparr>"

section \<open>The predicate translator\<close>

lemma collect_cases:
  "(\<exists>s. collect rs = Inr s \<and> (\<forall>r \<in> set rs. \<exists>x. r = Inr x))
   \<or> (\<exists>err. collect rs = Inl err \<and> Inl err \<in> set rs)"
proof (induction rs)
  case Nil
  then show ?case by simp
next
  case (Cons r rs)
  show ?case
  proof (cases r)
    case (Inl err)
    then show ?thesis by simp
  next
    case (Inr sb)
    with Cons.IH show ?thesis by (auto split: sum.splits)
  qed
qed

lemma operands_cases:
  assumes only: "\<And>subExp err. subExp \<in> set t \<Longrightarrow> f subExp = Inl err \<Longrightarrow> err = ErrNotImplemented"
    and fails: "\<And>subExp. subExp \<in> set t \<Longrightarrow> \<not> supported subExp \<Longrightarrow> \<exists>err. f subExp = Inl err"
  shows "collect (map f t) = Inl ErrNotImplemented
       \<or> (\<exists>s. collect (map f t) = Inr s \<and> (\<forall>subExp \<in> set t. supported subExp))"
proof -
  from collect_cases[of "map f t"] show ?thesis
  proof (elim disjE exE conjE)
    fix s assume s: "collect (map f t) = Inr s" and all: "\<forall>r \<in> set (map f t). \<exists>x. r = Inr x"
    have "\<forall>subExp \<in> set t. supported subExp"
    proof
      fix subExp assume m: "subExp \<in> set t"
      with all obtain x where "f subExp = Inr x" by auto
      with fails[OF m] show "supported subExp" by auto
    qed
    with s show ?thesis by simp
  next
    fix err assume e: "collect (map f t) = Inl err" and m: "Inl err \<in> set (map f t)"
    from m obtain subExp where "subExp \<in> set t" "f subExp = Inl err" by auto
    with only have "err = ErrNotImplemented" by blast
    with e show ?thesis by simp
  qed
qed

lemma translatePredicateFrom_errors:
  "(\<forall>err. translatePredicateFrom b q = Inl err \<longrightarrow> err = ErrNotImplemented)
   \<and> (\<not> (\<forall>e \<in> set q. supported e) \<longrightarrow> (\<exists>err. translatePredicateFrom b q = Inl err))"
proof (induction b q rule: translatePredicateFrom.induct)
  case (1 b)
  then show ?case by simp
next
  case (2 b t q)
  have c: "collect (map (\<lambda>subExp. translatePredicateFrom [] [subExp]) t) = Inl ErrNotImplemented
       \<or> (\<exists>s. collect (map (\<lambda>subExp. translatePredicateFrom [] [subExp]) t) = Inr s
              \<and> (\<forall>subExp \<in> set t. supported subExp))"
    by (rule operands_cases) (use "2.IH"(1) in auto)
  then show ?case
  proof (elim disjE exE conjE)
    assume "collect (map (\<lambda>subExp. translatePredicateFrom [] [subExp]) t) = Inl ErrNotImplemented"
    then show ?thesis by simp
  next
    fix s assume s: "collect (map (\<lambda>subExp. translatePredicateFrom [] [subExp]) t) = Inr s"
      and all: "\<forall>subExp \<in> set t. supported subExp"
    from "2.IH"(2)[OF s] s all show ?thesis by simp
  qed
next
  case (3 b t q)
  have c: "collect (map (\<lambda>subExp. translatePredicateFrom [] [subExp]) t) = Inl ErrNotImplemented
       \<or> (\<exists>s. collect (map (\<lambda>subExp. translatePredicateFrom [] [subExp]) t) = Inr s
              \<and> (\<forall>subExp \<in> set t. supported subExp))"
    by (rule operands_cases) (use "3.IH"(1) in auto)
  then show ?case
  proof (elim disjE exE conjE)
    assume "collect (map (\<lambda>subExp. translatePredicateFrom [] [subExp]) t) = Inl ErrNotImplemented"
    then show ?thesis by simp
  next
    fix s assume s: "collect (map (\<lambda>subExp. translatePredicateFrom [] [subExp]) t) = Inr s"
      and all: "\<forall>subExp \<in> set t. supported subExp"
    from "3.IH"(2)[OF s] s all show ?thesis by simp
  qed
next
  case (4 b f t q)
  have c: "collect (map (\<lambda>subExp. translatePredicateFrom [] [subExp]) t) = Inl ErrNotImplemented
       \<or> (\<exists>s. collect (map (\<lambda>subExp. translatePredicateFrom [] [subExp]) t) = Inr s
              \<and> (\<forall>subExp \<in> set t. supported subExp))"
    by (rule operands_cases) (use "4.IH"(1) in auto)
  then show ?case
  proof (elim disjE exE conjE)
    assume "collect (map (\<lambda>subExp. translatePredicateFrom [] [subExp]) t) = Inl ErrNotImplemented"
    then show ?thesis by simp
  next
    fix s assume s: "collect (map (\<lambda>subExp. translatePredicateFrom [] [subExp]) t) = Inr s"
      and all: "\<forall>subExp \<in> set t. supported subExp"
    from "4.IH"(2)[OF s] s all show ?thesis by simp
  qed
qed simp_all

text \<open>
  A node of another kind than those of the specification, anywhere in the tree, ends
  the translation with \<^verbatim>\<open>resource.ErrNotImplemented\<close>, and the translator returns no
  other error.
\<close>

lemma unsupported_node_aborts:
  "\<not> (\<forall>e \<in> set q. supported e) \<Longrightarrow> translatePredicate q = Inl ErrNotImplemented"
  unfolding translatePredicate_def using translatePredicateFrom_errors[of "[]" q] by blast

lemma only_ErrNotImplemented:
  "translatePredicate q = Inl err \<Longrightarrow> err = ErrNotImplemented"
  unfolding translatePredicate_def using translatePredicateFrom_errors[of "[]" q] by blast

text \<open>
  C5. The predicates of \<^verbatim>\<open>TestFind\<close>, "explicit &or of implicit and predicate" and
  "explicit $and of predicates", are built from supported node kinds only, and
  \<^verbatim>\<open>translatePredicate\<close> returns \<^verbatim>\<open>resource.ErrNotImplemented\<close> for both, where the
  equivalent implicit conjunction is translated.
\<close>

theorem supported_operands_rejected:
  "supported (Or [SubPredicate [Equal ''age'' (VInt 1), Equal ''name'' (VStr ''b'')]])
   \<and> translatePredicate [Or [SubPredicate [Equal ''age'' (VInt 1), Equal ''name'' (VStr ''b'')]]]
       = Inl ErrNotImplemented
   \<and> supported (And [SubPredicate [Equal ''age'' (VInt 1)], SubPredicate [Equal ''name'' (VStr ''b'')]])
   \<and> translatePredicate [And [SubPredicate [Equal ''age'' (VInt 1)], SubPredicate [Equal ''name'' (VStr ''b'')]]]
       = Inl ErrNotImplemented
   \<and> translatePredicate [Equal ''age'' (VInt 1), Equal ''name'' (VStr ''b'')]
       = Inr [(''age'', VInt 1), (''name'', VStr ''b'')]"
  by (simp add: translatePredicate_def getField_def)

text \<open>
  Two comparisons on one field of one predicate: the entry of the second replaces the
  entry of the first, \<^verbatim>\<open>b[getField(t.Field)]\<close> being assigned twice.
\<close>

lemma same_field_overwritten:
  "translatePredicate [GreaterThan ''f'' (VInt 1), LowerThan ''f'' (VInt 5)]
     = Inr [(''f'', VDoc [(''$lt'', VInt 5)])]"
  by (simp add: translatePredicate_def getField_def)

text \<open>
  C8. A single comparison is translated to one entry, under the field name given by
  \<open>getField\<close> (\<^verbatim>\<open>id\<close> becomes \<^verbatim>\<open>_id\<close>, any other name is unchanged): the value itself
  for \<^verbatim>\<open>Equal\<close>; the value under \<^verbatim>\<open>$ne\<close>, \<^verbatim>\<open>$gt\<close>, \<^verbatim>\<open>$gte\<close>, \<^verbatim>\<open>$lt\<close>, \<^verbatim>\<open>$lte\<close>; the
  value list under \<^verbatim>\<open>$in\<close>, \<^verbatim>\<open>$nin\<close>; \<^verbatim>\<open>$exists\<close> true or false; and for a pattern
  match the text of the compiled pattern under \<^verbatim>\<open>$regex\<close>, which is all a
  \<^verbatim>\<open>query.Regex\<close> carries.
\<close>

theorem comparison_translation:
  "translatePredicate [Equal f v] = Inr [(getField f, v)]
   \<and> translatePredicate [NotEqual f v] = Inr [(getField f, VDoc [(''$ne'', v)])]
   \<and> translatePredicate [GreaterThan f v] = Inr [(getField f, VDoc [(''$gt'', v)])]
   \<and> translatePredicate [GreaterOrEqual f v] = Inr [(getField f, VDoc [(''$gte'', v)])]
   \<and> translatePredicate [LowerThan f v] = Inr [(getField f, VDoc [(''$lt'', v)])]
   \<and> translatePredicate [LowerOrEqual f v] = Inr [(getField f, VDoc [(''$lte'', v)])]
   \<and> translatePredicate [In f vs] = Inr [(getField f, VDoc [(''$in'', VList vs)])]
   \<and> translatePredicate [NotIn f vs] = Inr [(getField f, VDoc [(''$nin'', VList vs)])]
   \<and> translatePredicate [Exist f] = Inr [(getField f, VDoc [(''$exists'', VBool True)])]
   \<and> translatePredicate [NotExist f] = Inr [(getField f, VDoc [(''$exists'', VBool False)])]
   \<and> translatePredicate [Regex f re] = Inr [(getField f, VDoc [(''$regex'', VStr (String re))])]
   \<and> getField ''id'' = ''_id'' \<and> (f \<noteq> ''id'' \<longrightarrow> getField f = f)"
  by (simp add: translatePredicate_def getField_def)

theorem comparison_translation_witness:
  "translatePredicate [Equal ''id'' (VStr ''foo'')] = Inr [(''_id'', VStr ''foo'')]
   \<and> translatePredicate [GreaterThan ''f'' (VInt 1)] = Inr [(''f'', VDoc [(''$gt'', VInt 1)])]
   \<and> translatePredicate [Regex ''f'' (Regexp ''fo[o]{1}.+is.+some'')]
       = Inr [(''f'', VDoc [(''$regex'', VStr ''fo[o]{1}.+is.+some'')])]"
  using comparison_translation[of "''id''" "VStr ''foo''"]
        comparison_translation[of "''f''" "VInt 1" _ "Regexp ''fo[o]{1}.+is.+some''"]
  by simp

text \<open>
  C4. The predicates of the test cases "and predicates" and "or predicates", whose
  operands are lists of bare expressions, are not collapsed into one document each:
  \<^verbatim>\<open>translatePredicate\<close> has no case for such an operand and returns
  \<^verbatim>\<open>resource.ErrNotImplemented\<close>.
\<close>

theorem sub_predicate_operand_fails:
  "translatePredicate
     [And [SubPredicate [Regex ''f'' (Regexp ''^b??$'')],
           SubPredicate [Equal ''f'' (VStr ''bar''), Equal ''g'' (VStr ''baz'')]]]
     = Inl ErrNotImplemented
   \<and> translatePredicate
     [Or [SubPredicate [Equal ''f'' (VStr ''foo'')],
          SubPredicate [Equal ''f'' (VStr ''bar''), Equal ''g'' (VStr ''baz'')]]]
     = Inl ErrNotImplemented"
  by (simp add: translatePredicate_def)

section \<open>The sort translator\<close>

lemma getSort_loop_eq:
  "i + length xs \<le> length s \<Longrightarrow>
   getSort_loop i xs s =
     take i s @ map (\<lambda>sf. if Reversed sf then ''-'' @ getField (Name sf) else getField (Name sf)) xs
       @ drop (i + length xs) s"
proof (induction xs arbitrary: i s)
  case Nil
  then show ?case by simp
next
  case (Cons sf rest)
  let ?e = "if Reversed sf then ''-'' @ getField (Name sf) else getField (Name sf)"
  have len: "Suc i + length rest \<le> length (s[i := ?e])" using Cons.prems by simp
  have i: "i < length s" using Cons.prems by simp
  have "getSort_loop i (sf # rest) s = getSort_loop (Suc i) rest (s[i := ?e])"
    by simp
  also have "\<dots> = take (Suc i) (s[i := ?e]) @ map (\<lambda>sf. if Reversed sf then ''-'' @ getField (Name sf) else getField (Name sf)) rest
       @ drop (Suc i + length rest) (s[i := ?e])"
    using Cons.IH[OF len] .
  also have "take (Suc i) (s[i := ?e]) = take i s @ [?e]"
    using i by (simp add: take_Suc_conv_app_nth)
  also have "drop (Suc i + length rest) (s[i := ?e]) = drop (i + length (sf # rest)) s"
    by simp
  finally show ?case by simp
qed

text \<open>
  C9. For a non-empty sort list \<^verbatim>\<open>getSort\<close> returns one entry per sort field, in the
  same order: the field name through \<open>getField\<close> (\<^verbatim>\<open>id\<close> becomes \<^verbatim>\<open>_id\<close>, any other
  name is unchanged), prefixed with \<^verbatim>\<open>-\<close> when the field is reversed. For the empty list
  it returns exactly \<^verbatim>\<open>["_id"]\<close>.
\<close>

theorem getSort_translation:
  "getSort q =
     (if Sort q = [] then [''_id'']
      else map (\<lambda>sf. if Reversed sf then ''-'' @ getField (Name sf) else getField (Name sf)) (Sort q))
   \<and> (Sort q \<noteq> [] \<longrightarrow> length (getSort q) = length (Sort q))
   \<and> getField ''id'' = ''_id'' \<and> (\<forall>f. f \<noteq> ''id'' \<longrightarrow> getField f = f)"
proof -
  have loop: "getSort_loop 0 (Sort q) (replicate (length (Sort q)) '''') =
      map (\<lambda>sf. if Reversed sf then ''-'' @ getField (Name sf) else getField (Name sf)) (Sort q)"
    using getSort_loop_eq[of 0 "Sort q" "replicate (length (Sort q)) ''''"] by simp
  have eq: "getSort q =
     (if Sort q = [] then [''_id'']
      else map (\<lambda>sf. if Reversed sf then ''-'' @ getField (Name sf) else getField (Name sf)) (Sort q))"
    unfolding getSort_def using loop by simp
  have len: "Sort q \<noteq> [] \<longrightarrow> length (getSort q) = length (Sort q)"
    using eq by simp
  show ?thesis using eq len by (simp add: getField_def)
qed

theorem getSort_translation_witness:
  "getSort \<lparr>Predicate = [], Sort = [\<lparr>Name = ''f'', Reversed = False\<rparr>, \<lparr>Name = ''id'', Reversed = True\<rparr>], Window = None\<rparr>
     = [''f'', ''-_id'']
   \<and> getSort \<lparr>Predicate = [], Sort = [], Window = None\<rparr> = [''_id'']
   \<and> getField ''name'' = ''name''"
  using getSort_translation[of "\<lparr>Predicate = [], Sort = [\<lparr>Name = ''f'', Reversed = False\<rparr>, \<lparr>Name = ''id'', Reversed = True\<rparr>], Window = None\<rparr>"]
        getSort_translation[of "\<lparr>Predicate = [], Sort = [], Window = None\<rparr>"]
  by simp

section \<open>The item codec\<close>

lemma strip_id_map_of:
  "distinct (map fst xs) \<Longrightarrow>
   map_of (fold (\<lambda>(k, v) p. if k \<noteq> ''id'' then AList.update k v p else p) xs acc) =
     (\<lambda>k. if k \<noteq> ''id'' \<and> k \<in> fst ` set xs then map_of xs k else map_of acc k)"
proof (induction xs arbitrary: acc)
  case Nil
  then show ?case by simp
next
  case (Cons x xs)
  obtain k v where x: "x = (k, v)" by (cases x)
  from Cons.prems x have dist: "distinct (map fst xs)" and fresh: "k \<notin> fst ` set xs"
    by auto
  have nk: "map_of xs k = None" using fresh by (simp add: map_of_eq_None_iff)
  show ?case
  proof (cases "k = ''id''")
    case True
    with x Cons.IH[OF dist, of acc] show ?thesis by (auto simp: fun_eq_iff)
  next
    case False
    with x Cons.IH[OF dist, of "AList.update k v acc"] fresh nk show ?thesis
      by (auto simp: fun_eq_iff update_conv')
  qed
qed

lemma newMongoItem_payload:
  assumes "distinct (map fst (Payload i))"
  shows "\<exists>p. m_Payload (newMongoItem i) = Some p
       \<and> map_of p = (\<lambda>k. if k = ''id'' then None else map_of (Payload i) k)"
proof -
  let ?p = "fold (\<lambda>(k, v) p. if k \<noteq> ''id'' then AList.update k v p else p) (Payload i) []"
  have some: "m_Payload (newMongoItem i) = Some ?p"
    by (simp add: newMongoItem_def)
  have "map_of ?p =
      (\<lambda>k. if k \<noteq> ''id'' \<and> k \<in> fst ` set (Payload i) then map_of (Payload i) k else map_of [] k)"
    using strip_id_map_of[OF assms, of "[]"] by simp
  also have "\<dots> = (\<lambda>k. if k = ''id'' then None else map_of (Payload i) k)"
  proof -
    have "\<And>k. k \<notin> fst ` set (Payload i) \<Longrightarrow> map_of (Payload i) k = None"
      by (simp add: map_of_eq_None_iff)
    then show ?thesis by (auto simp: fun_eq_iff)
  qed
  finally show ?thesis using some by simp
qed

text \<open>
  C7. For an item with a non-empty ETag (and a payload that is a map: no key twice),
  \<^verbatim>\<open>newItem\<close> of \<^verbatim>\<open>newMongoItem\<close> returns an item with the same ID, ETag and Updated,
  whose payload is the payload of the item with the ID under the key \<^verbatim>\<open>id\<close>: the same
  payload when the item already had its ID under that key. The document in between has
  a payload map without the key \<^verbatim>\<open>id\<close>.
\<close>

theorem item_round_trip:
  assumes "ETag i \<noteq> []" and "distinct (map fst (Payload i))"
  shows "\<exists>r p. newItem sprint (newMongoItem i) = Inr r
       \<and> ID r = ID i
       \<and> ETag r = ETag i
       \<and> Updated r = Updated i
       \<and> map_of (Payload r) = (map_of (Payload i))(''id'' \<mapsto> ID i)
       \<and> (map_of (Payload i) ''id'' = Some (ID i) \<longrightarrow> map_of (Payload r) = map_of (Payload i))
       \<and> m_Payload (newMongoItem i) = Some p \<and> map_of p ''id'' = None"
proof -
  from newMongoItem_payload[OF assms(2)] obtain p where
    some: "m_Payload (newMongoItem i) = Some p"
    and p: "map_of p = (\<lambda>k. if k = ''id'' then None else map_of (Payload i) k)"
    by blast
  have fields: "m_ID (newMongoItem i) = ID i" "m_ETag (newMongoItem i) = ETag i"
      "m_Updated (newMongoItem i) = Updated i"
    by (simp_all add: newMongoItem_def)
  let ?r = "\<lparr>ID = ID i, ETag = ETag i, Updated = Updated i, Payload = AList.update ''id'' (ID i) p\<rparr>"
  have r: "newItem sprint (newMongoItem i) = Inr ?r"
    using assms(1) by (simp add: newItem_def fields some)
  have pay: "map_of (Payload ?r) = (map_of (Payload i))(''id'' \<mapsto> ID i)"
    by (auto simp: update_conv' p fun_eq_iff)
  have same: "map_of (Payload i) ''id'' = Some (ID i) \<longrightarrow> map_of (Payload ?r) = map_of (Payload i)"
    using pay by (auto simp: fun_eq_iff)
  have stripped: "map_of p ''id'' = None"
    by (simp add: p)
  from r pay same some stripped show ?thesis
    by (intro exI[of _ ?r] exI[of _ p]) simp
qed

theorem item_round_trip_witness:
  "ETag \<lparr>ID = VStr ''1234'', ETag = ''etag'', Updated = 7,
         Payload = [(''id'', VStr ''1234''), (''foo'', VStr ''bar'')]\<rparr> \<noteq> []
   \<and> distinct (map fst [(''id'', VStr ''1234''), (''foo'', VStr ''bar'')])
   \<and> (\<exists>r. newItem exampleSprint (newMongoItem \<lparr>ID = VStr ''1234'', ETag = ''etag'', Updated = 7,
         Payload = [(''id'', VStr ''1234''), (''foo'', VStr ''bar'')]\<rparr>) = Inr r
        \<and> ID r = VStr ''1234'' \<and> ETag r = ''etag'' \<and> Updated r = 7
        \<and> map_of (Payload r) = map_of [(''id'', VStr ''1234''), (''foo'', VStr ''bar'')])
   \<and> m_Payload (newMongoItem \<lparr>ID = VStr ''1234'', ETag = ''etag'', Updated = 7,
         Payload = [(''id'', VStr ''1234''), (''foo'', VStr ''bar'')]\<rparr>) = Some [(''foo'', VStr ''bar'')]"
proof -
  let ?i = "\<lparr>ID = VStr ''1234'', ETag = ''etag'', Updated = 7,
         Payload = [(''id'', VStr ''1234''), (''foo'', VStr ''bar'')]\<rparr>"
  have h: "ETag ?i \<noteq> []" "distinct (map fst (Payload ?i))" by simp_all
  from item_round_trip[OF h, of exampleSprint] obtain r where
    "newItem exampleSprint (newMongoItem ?i) = Inr r" "ID r = ID ?i" "ETag r = ETag ?i"
    "Updated r = Updated ?i" "map_of (Payload ?i) ''id'' = Some (ID ?i) \<longrightarrow> map_of (Payload r) = map_of (Payload ?i)"
    by blast
  then have "\<exists>r. newItem exampleSprint (newMongoItem ?i) = Inr r
        \<and> ID r = VStr ''1234'' \<and> ETag r = ''etag'' \<and> Updated r = 7
        \<and> map_of (Payload r) = map_of [(''id'', VStr ''1234''), (''foo'', VStr ''bar'')]"
    by (intro exI[of _ r]) simp
  then show ?thesis by (simp add: newMongoItem_def)
qed

section \<open>Insert\<close>

text \<open>
  C10. Once the session is acquired, if the context has an error when the insert of the
  store returns, \<^verbatim>\<open>Insert\<close> returns that error whatever the store returned: nil, a
  duplicate-key error (otherwise reported as \<^verbatim>\<open>ErrConflict\<close>) or any other error.
\<close>

theorem insert_context_error_wins:
  assumes "Handler_c env ctx = None"
    and "ctx 1 = Some cerr"
    and "mgoInsert env (map newMongoItem items) s = (serr, s')"
  shows "Insert env ctx items s = (Some cerr, s')"
  using assms by (simp add: Insert_def)

theorem insert_context_error_wins_witness:
  "Handler_c memEnv (cancelledAfter 1) = None
   \<and> cancelledAfter 1 1 = Some Canceled
   \<and> mgoInsert memEnv (map newMongoItem [updatedItem]) storedUpdated = (Some MgoDup, storedUpdated)
   \<and> Insert memEnv background [updatedItem] storedUpdated = (Some ErrConflict, storedUpdated)
   \<and> Insert memEnv (cancelledAfter 1) [updatedItem] storedUpdated = (Some Canceled, storedUpdated)"
proof -
  have h: "Handler_c memEnv (cancelledAfter 1) = None"
    by (simp add: Handler_c_def memEnv_def memCollection_def cancelledAfter_def)
  have c: "cancelledAfter 1 1 = Some Canceled"
    by (simp add: cancelledAfter_def)
  have i: "mgoInsert memEnv (map newMongoItem [updatedItem]) storedUpdated = (Some MgoDup, storedUpdated)"
    by (simp add: memEnv_def memCollection_def newMongoItem_def marshal_def updatedItem_def
        storedUpdated_def)
  have b: "Insert memEnv background [updatedItem] storedUpdated = (Some ErrConflict, storedUpdated)"
    using i by (simp add: Insert_def Handler_c_def background_def memEnv_def memCollection_def)
  from insert_context_error_wins[OF h c i] h c i b show ?thesis by simp
qed

section \<open>The reference store and the examples\<close>

lemma length_insortDoc: "length (insortDoc le d ds) = Suc (length ds)"
  by (induction ds) simp_all

lemma set_insortDoc: "set (insortDoc le d ds) = insert d (set ds)"
  by (induction ds) auto

lemma length_sortDocs: "length (sortDocs le ds) = length ds"
  unfolding sortDocs_def by (induction ds) (simp_all add: length_insortDoc)

lemma set_sortDocs: "set (sortDocs le ds) = set ds"
  unfolding sortDocs_def by (induction ds) (simp_all add: set_insortDoc)

lemma cursor_unwindowed:
  "length (cursor sem ord (mgoFind qry) s) = length (filter (sem qry) s)"
  by (simp add: cursor_def mgoFind_def length_sortDocs)

lemma memCollection_acquires: "ctx 0 = None \<Longrightarrow> Handler_c (memCollection sem ord sp) ctx = None"
  by (simp add: Handler_c_def memCollection_def)

lemma distinct_insortDoc:
  "distinct (map f (insortDoc le d ds)) = (f d \<notin> f ` set ds \<and> distinct (map f ds))"
  by (induction ds) (auto simp: set_insortDoc)

lemma distinct_sortDocs: "distinct (map f ds) \<Longrightarrow> distinct (map f (sortDocs le ds))"
  unfolding sortDocs_def
proof (induction ds)
  case Nil
  then show ?case by simp
next
  case (Cons d ds)
  have "set (foldr (insortDoc le) ds []) = set ds"
    using set_sortDocs[of le ds] by (simp add: sortDocs_def)
  with Cons show ?case by (simp add: distinct_insortDoc)
qed

lemma memEnv_acquires: "Handler_c memEnv background = None" "Handler_c memEnv (cancelledAfter (Suc n)) = None"
  by (simp_all add: Handler_c_def memEnv_def memCollection_def background_def cancelledAfter_def)

lemma nameQuery_translated:
  "getQuery (nameQuery w) = Inr [(''name'', VDoc [(''$in'', VList [VStr ''c'', VStr ''d''])])]"
  by (simp add: getQuery_def nameQuery_def translatePredicate_def getField_def)

lemma nameQuery_sort: "getSort (nameQuery w) = [''name'']"
  by (simp add: getSort_def nameQuery_def getField_def)

lemma nameQuery_window: "Window (nameQuery w) = w"
  by (simp add: nameQuery_def)

lemma background_uncancelled: "\<forall>t. background t = None"
  by (simp add: background_def)

lemma fourDocs_matching:
  "filter (basicSem [(''name'', VDoc [(''$in'', VList [VStr ''c'', VStr ''d''])])]) fourDocs
     = [namedDoc ''3'' ''d'', namedDoc ''4'' ''c'']"
  by (simp add: fourDocs_def namedDoc_def basicSem_def basicCond_def docField_def)

lemma fourDocs_sorted:
  "sortDocs (basicOrd [''name'']) [namedDoc ''3'' ''d'', namedDoc ''4'' ''c'']
     = [namedDoc ''4'' ''c'', namedDoc ''3'' ''d'']"
  by (simp add: sortDocs_def namedDoc_def docField_def)

lemma in_ids_basicSem:
  "basicSem [(''_id'', VDoc [(''$in'', VList ids)])] d = (d_id d \<in> set ids)"
  by (simp add: basicSem_def basicCond_def docField_def)

lemma stale_update_unmatched:
  "mgoUpdate memEnv [(''_id'', VStr ''1234''), (''_etag'', VStr ''etag1'')] (newMongoItem updatedItem)
     storedUpdated = (Some MgoErrNotFound, storedUpdated)"
  by (simp add: memEnv_def memCollection_def storedUpdated_def basicSem_def basicCond_def docField_def)

lemma provisional_update_unmatched:
  "mgoUpdate memEnv [(''_id'', VStr ''1234''), (''_etag'', VDoc [(''$exists'', VBool False)])]
     (newMongoItem updatedItem) storedUpdated = (Some MgoErrNotFound, storedUpdated)"
  by (simp add: memEnv_def memCollection_def storedUpdated_def basicSem_def basicCond_def docField_def)

lemma stale_remove_unmatched:
  "mgoRemove memEnv [(''_id'', VStr ''1234''), (''_etag'', VStr ''etag1'')]
     storedUpdated = (Some MgoErrNotFound, storedUpdated)"
  by (simp add: memEnv_def memCollection_def storedUpdated_def basicSem_def basicCond_def docField_def)

lemma one_document_with_id:
  "mgoCount memEnv (mgoFindId (VStr ''1234'')) storedUpdated = (1, None)"
  by (simp add: memEnv_def memCollection_def storedUpdated_def basicSem_def basicCond_def docField_def
      mgoFindId_def mgoFind_def cursor_def sortDocs_def)

lemma no_document_with_id:
  "mgoCount memEnv (mgoFindId (VStr ''1234'')) [] = (0, None)"
  by (simp add: memEnv_def memCollection_def mgoFindId_def mgoFind_def cursor_def sortDocs_def)

section \<open>Update and Delete\<close>

text \<open>
  C1, amended. \<^verbatim>\<open>Update\<close> and \<^verbatim>\<open>Delete\<close> give the store a filter with the ID of the
  original item under \<^verbatim>\<open>_id\<close> and, under \<^verbatim>\<open>_etag\<close>, \<^verbatim>\<open>{$exists: false}\<close> when the
  original ETag starts with \<^verbatim>\<open>p-\<close> and the ETag itself otherwise. When the store answers
  that filter with \<^verbatim>\<open>mgo.ErrNotFound\<close>, the handler counts the documents with that
  \<^verbatim>\<open>_id\<close> alone and returns: the error of the count, if it has one; \<^verbatim>\<open>ErrNotFound\<close> for a
  count of zero; otherwise the error of the context, if it has one by then; otherwise
  \<^verbatim>\<open>ErrConflict\<close>.
\<close>

theorem version_match_and_disambiguation:
  "(Handler_c env ctx = None
      \<and> mgoUpdate env
           [(''_id'', ID original),
            (''_etag'', if prefix ''p-'' (ETag original)
                        then VDoc [(''$exists'', VBool False)] else VStr (ETag original))]
           (newMongoItem it) s = (Some MgoErrNotFound, s')
      \<and> mgoCount env (mgoFindId (ID original)) s' = (n, cerr)
    \<longrightarrow> Update env ctx it original s =
          (if cerr \<noteq> None then cerr
           else if n = 0 then Some ErrNotFound
           else if ctx 2 \<noteq> None then ctx 2
           else Some ErrConflict, s'))
   \<and> (Handler_c env ctx = None
      \<and> mgoRemove env
           [(''_id'', ID original),
            (''_etag'', if prefix ''p-'' (ETag original)
                        then VDoc [(''$exists'', VBool False)] else VStr (ETag original))]
           s = (Some MgoErrNotFound, s')
      \<and> mgoCount env (mgoFindId (ID original)) s' = (n, cerr)
    \<longrightarrow> Delete env ctx original s =
          (if cerr \<noteq> None then cerr
           else if n = 0 then Some ErrNotFound
           else if ctx 2 \<noteq> None then ctx 2
           else Some ErrConflict, s'))
   \<and> mgoFindId (ID original) = mgoFind [(''_id'', ID original)]"
proof -
  have upd: "Update env ctx it original s =
          (if cerr \<noteq> None then cerr
           else if n = 0 then Some ErrNotFound
           else if ctx 2 \<noteq> None then ctx 2
           else Some ErrConflict, s')"
    if "Handler_c env ctx = None"
      and "mgoUpdate env
           [(''_id'', ID original),
            (''_etag'', if prefix ''p-'' (ETag original)
                        then VDoc [(''$exists'', VBool False)] else VStr (ETag original))]
           (newMongoItem it) s = (Some MgoErrNotFound, s')"
      and "mgoCount env (mgoFindId (ID original)) s' = (n, cerr)"
    using that by (cases "prefix ''p-'' (ETag original)") (simp_all add: Update_def)
  have del: "Delete env ctx original s =
          (if cerr \<noteq> None then cerr
           else if n = 0 then Some ErrNotFound
           else if ctx 2 \<noteq> None then ctx 2
           else Some ErrConflict, s')"
    if "Handler_c env ctx = None"
      and "mgoRemove env
           [(''_id'', ID original),
            (''_etag'', if prefix ''p-'' (ETag original)
                        then VDoc [(''$exists'', VBool False)] else VStr (ETag original))]
           s = (Some MgoErrNotFound, s')"
      and "mgoCount env (mgoFindId (ID original)) s' = (n, cerr)"
    using that by (cases "prefix ''p-'' (ETag original)") (simp_all add: Delete_def)
  show ?thesis using upd del by (simp add: mgoFindId_def)
qed

theorem version_match_and_disambiguation_witness:
  "Update memEnv background updatedItem oldItem storedUpdated = (Some ErrConflict, storedUpdated)
   \<and> Delete memEnv background oldItem storedUpdated = (Some ErrConflict, storedUpdated)
   \<and> Update memEnv background updatedItem oldItem [] = (Some ErrNotFound, [])
   \<and> Update memEnv (cancelledAfter 1) updatedItem oldItem storedUpdated = (Some Canceled, storedUpdated)
   \<and> Update memEnv background updatedItem (oldItem\<lparr>ETag := ''p-1234''\<rparr>) storedUpdated
       = (Some ErrConflict, storedUpdated)"
proof -
  have id: "ID oldItem = VStr ''1234''" and etag: "ETag oldItem = ''etag1''"
    by (simp_all add: oldItem_def)
  have np: "\<not> prefix ''p-'' (ETag oldItem)" by (simp add: etag)
  have u0: "mgoUpdate memEnv [(''_id'', VStr ''1234''), (''_etag'', VStr ''etag1'')] (newMongoItem updatedItem)
     [] = (Some MgoErrNotFound, [])"
    by (simp add: memEnv_def memCollection_def)
  have bg: "background 2 = None" by (simp add: background_def)
  have ca: "cancelledAfter 1 2 = Some Canceled" by (simp add: cancelledAfter_def)
  have a: "Update memEnv background updatedItem oldItem storedUpdated = (Some ErrConflict, storedUpdated)"
    using version_match_and_disambiguation[of memEnv background oldItem updatedItem storedUpdated storedUpdated 1 None]
      memEnv_acquires(1) stale_update_unmatched one_document_with_id np bg
    by (simp add: id etag)
  have b: "Delete memEnv background oldItem storedUpdated = (Some ErrConflict, storedUpdated)"
    using version_match_and_disambiguation[of memEnv background oldItem updatedItem storedUpdated storedUpdated 1 None]
      memEnv_acquires(1) stale_remove_unmatched one_document_with_id np bg
    by (simp add: id etag)
  have c: "Update memEnv background updatedItem oldItem [] = (Some ErrNotFound, [])"
    using version_match_and_disambiguation[of memEnv background oldItem updatedItem "[]" "[]" 0 None]
      memEnv_acquires(1) u0 no_document_with_id np
    by (simp add: id etag)
  have d: "Update memEnv (cancelledAfter 1) updatedItem oldItem storedUpdated = (Some Canceled, storedUpdated)"
    using version_match_and_disambiguation[of memEnv "cancelledAfter 1" oldItem updatedItem storedUpdated storedUpdated 1 None]
      memEnv_acquires(2)[of 0] stale_update_unmatched one_document_with_id np ca
    by (simp add: id etag)
  have e: "Update memEnv background updatedItem (oldItem\<lparr>ETag := ''p-1234''\<rparr>) storedUpdated
       = (Some ErrConflict, storedUpdated)"
    using version_match_and_disambiguation[of memEnv background "oldItem\<lparr>ETag := ''p-1234''\<rparr>" updatedItem
        storedUpdated storedUpdated 1 None]
      memEnv_acquires(1) provisional_update_unmatched one_document_with_id bg
    by (simp add: id)
  show ?thesis using a b c d e by simp
qed

text \<open>
  C1 as stated fails: the store has one document with the identifier and another
  ETag, it reports no match, and the context is cancelled while the operation runs;
  \<^verbatim>\<open>Update\<close> and \<^verbatim>\<open>Delete\<close> return \<^verbatim>\<open>context.Canceled\<close>, not \<^verbatim>\<open>ErrConflict\<close>.
\<close>

theorem conflict_overridden_by_context_counterexample:
  "mgoUpdate memEnv [(''_id'', ID oldItem), (''_etag'', VStr (ETag oldItem))] (newMongoItem updatedItem)
     storedUpdated = (Some MgoErrNotFound, storedUpdated)
   \<and> mgoCount memEnv (mgoFindId (ID oldItem)) storedUpdated = (1, None)
   \<and> fst (Update memEnv (cancelledAfter 1) updatedItem oldItem storedUpdated) = Some Canceled
   \<and> fst (Update memEnv (cancelledAfter 1) updatedItem oldItem storedUpdated) \<noteq> Some ErrConflict
   \<and> fst (Delete memEnv (cancelledAfter 1) oldItem storedUpdated) \<noteq> Some ErrConflict"
proof -
  have id: "ID oldItem = VStr ''1234''" and etag: "ETag oldItem = ''etag1''"
    by (simp_all add: oldItem_def)
  have u: "Update memEnv (cancelledAfter 1) updatedItem oldItem storedUpdated = (Some Canceled, storedUpdated)"
    using memEnv_acquires(2)[of 0] stale_update_unmatched one_document_with_id
    by (simp add: Update_def id etag cancelledAfter_def)
  have d: "Delete memEnv (cancelledAfter 1) oldItem storedUpdated = (Some Canceled, storedUpdated)"
    using memEnv_acquires(2)[of 0] stale_remove_unmatched one_document_with_id
    by (simp add: Delete_def id etag cancelledAfter_def)
  show ?thesis using u d stale_update_unmatched one_document_with_id by (simp add: id etag)
qed

section \<open>Find with a zero limit\<close>

lemma Count_ignores_window: "Count env ctx q s = Count env ctx (q\<lparr>Window := None\<rparr>) s"
  by (simp add: Count_def getQuery_def)

lemma Count_ignores_iter: "Count (env\<lparr>mgoIter := it\<rparr>) ctx q s = Count env ctx q s"
  by (simp add: Count_def Handler_c_def split: sum.splits option.splits)

lemma Find_zero_limit:
  assumes "Window q = Some w" and "Limit w = 0"
  shows "Find env ctx q s =
        (case Count env ctx q s of
           (n, Some err) \<Rightarrow> Inl err
         | (n, None) \<Rightarrow> Inr \<lparr>Total = n, ListLimit = 0, Items = []\<rparr>)"
  using assms by (simp add: Find_def split: prod.splits option.splits)

lemma memCollection_Count:
  assumes "getQuery q = Inr qry" and "ctx 0 = None"
  shows "Count (memCollection sem ord sp) ctx q coll = (int (length (filter (sem qry) coll)), None)"
proof -
  have "Count (memCollection sem ord sp) ctx q coll = mgoCount (memCollection sem ord sp) (mgoFind qry) coll"
    using assms memCollection_acquires[of ctx sem ord sp] by (simp add: Count_def)
  also have "\<dots> = (int (length (filter (sem qry) coll)), None)"
    by (simp add: memCollection_def cursor_unwindowed)
  finally show ?thesis .
qed

text \<open>
  C2, amended. For a query whose window has \<^verbatim>\<open>Limit = 0\<close>, \<^verbatim>\<open>Find\<close> returns what
  \<^verbatim>\<open>Count\<close> returns: its error, or no items and its count as \<^verbatim>\<open>Total\<close>. It iterates no
  cursor (its result is the same whatever \<^verbatim>\<open>Iter\<close> would give), and the count is the
  one of the translated predicate with neither skip nor limit, the same as without
  the window. On the reference store that is the number of documents the predicate
  selects.
\<close>

theorem find_limit_zero:
  "(Window q = Some w \<and> Limit w = 0 \<longrightarrow>
      Find env ctx q s =
        (case Count env ctx q s of
           (n, Some err) \<Rightarrow> Inl err
         | (n, None) \<Rightarrow> Inr \<lparr>Total = n, ListLimit = 0, Items = []\<rparr>)
      \<and> Find (env\<lparr>mgoIter := it\<rparr>) ctx q s = Find env ctx q s
      \<and> Count env ctx q s = Count env ctx (q\<lparr>Window := None\<rparr>) s
      \<and> (getQuery q = Inr qry \<and> Handler_c env ctx = None \<longrightarrow>
           Count env ctx q s = mgoCount env (mgoFind qry) s
           \<and> mq_skip (mgoFind qry) = None \<and> mq_limit (mgoFind qry) = None))
   \<and> (Window q = Some w \<and> Limit w = 0 \<and> getQuery q = Inr qry \<and> ctx 0 = None \<longrightarrow>
        Find (memCollection sem ord sp) ctx q coll =
          Inr \<lparr>Total = int (length (filter (sem qry) coll)), ListLimit = 0, Items = []\<rparr>)"
proof -
  have noiter: "Find (env\<lparr>mgoIter := it\<rparr>) ctx q s = Find env ctx q s"
    if "Window q = Some w" "Limit w = 0"
    using Find_zero_limit[OF that, of env ctx s] Find_zero_limit[OF that, of "env\<lparr>mgoIter := it\<rparr>" ctx s]
    by (simp add: Count_ignores_iter)
  have cnt: "Count env ctx q s = mgoCount env (mgoFind qry) s"
    if "getQuery q = Inr qry" "Handler_c env ctx = None"
    using that by (simp add: Count_def)
  have mem: "Find (memCollection sem ord sp) ctx q coll =
          Inr \<lparr>Total = int (length (filter (sem qry) coll)), ListLimit = 0, Items = []\<rparr>"
    if w: "Window q = Some w" "Limit w = 0" and q: "getQuery q = Inr qry" and c: "ctx 0 = None"
    using Find_zero_limit[OF w, of "memCollection sem ord sp" ctx coll]
      memCollection_Count[of q qry ctx sem ord sp coll] q c
    by simp
  show ?thesis
    using Find_zero_limit[of q w env ctx s] noiter cnt mem Count_ignores_window[of env ctx q s]
    by (simp add: mgoFind_def)
qed

theorem find_limit_zero_witness:
  "Find memEnv background (nameQuery (Some \<lparr>Offset = 0, Limit = 0\<rparr>)) fourDocs
     = Inr \<lparr>Total = 2, ListLimit = 0, Items = []\<rparr>
   \<and> Find (memEnv\<lparr>mgoIter := (\<lambda>mq s. ([], Some (MgoOther ''unused'')))\<rparr>) background
        (nameQuery (Some \<lparr>Offset = 0, Limit = 0\<rparr>)) fourDocs
     = Inr \<lparr>Total = 2, ListLimit = 0, Items = []\<rparr>
   \<and> Count memEnv background (nameQuery (Some \<lparr>Offset = 0, Limit = 0\<rparr>)) fourDocs
     = mgoCount memEnv (mgoFind [(''name'', VDoc [(''$in'', VList [VStr ''c'', VStr ''d''])])]) fourDocs"
proof -
  let ?qry = "[(''name'', VDoc [(''$in'', VList [VStr ''c'', VStr ''d''])])]"
  let ?w = "\<lparr>Offset = 0, Limit = 0\<rparr>"
  let ?it = "\<lambda>(mq::mquery) (s::doc list). ([]::mongoItem list, Some (MgoOther ''unused''))"
  have f: "length (filter (basicSem ?qry) fourDocs) = 2"
    by (simp add: fourDocs_matching)
  have h: "Window (nameQuery (Some ?w)) = Some ?w \<and> Limit ?w = 0
      \<and> getQuery (nameQuery (Some ?w)) = Inr ?qry \<and> background 0 = None
      \<and> Handler_c memEnv background = None"
    using nameQuery_translated memEnv_acquires(1) by (simp add: nameQuery_window background_def)
  note t = find_limit_zero[of "nameQuery (Some ?w)" ?w memEnv background fourDocs ?it ?qry
      basicSem basicOrd exampleSprint fourDocs]
  have m: "Find memEnv background (nameQuery (Some ?w)) fourDocs =
          Inr \<lparr>Total = 2, ListLimit = 0, Items = []\<rparr>"
    using t[THEN conjunct2] h f unfolding memEnv_def by simp
  have g: "Find (memEnv\<lparr>mgoIter := ?it\<rparr>) background (nameQuery (Some ?w)) fourDocs
         = Find memEnv background (nameQuery (Some ?w)) fourDocs
      \<and> Count memEnv background (nameQuery (Some ?w)) fourDocs = mgoCount memEnv (mgoFind ?qry) fourDocs"
    using t[THEN conjunct1] h by blast
  show ?thesis using m g by simp
qed

text \<open>
  C2 as stated fails for \<^verbatim>\<open>Clear\<close>: with \<^verbatim>\<open>Window{Limit: 0}\<close> it builds the windowed
  query with \<^verbatim>\<open>Limit(0)\<close>, which the store reads as no limit, and removes both
  matching documents instead of none.
\<close>

theorem clear_limit_zero_counterexample:
  "Window (nameQuery (Some \<lparr>Offset = 0, Limit = 0\<rparr>)) = Some \<lparr>Offset = 0, Limit = 0\<rparr>
   \<and> mq_limit (applyWindow (mgoSort [''name''] (mgoFind [(''name'', VDoc [(''$in'', VList [VStr ''c'', VStr ''d''])])]))
                 \<lparr>Offset = 0, Limit = 0\<rparr>) = Some 0
   \<and> Clear memEnv background (nameQuery (Some \<lparr>Offset = 0, Limit = 0\<rparr>)) fourDocs
       = ((2, None), [namedDoc ''1'' ''a'', namedDoc ''2'' ''b''])"
proof -
  let ?qry = "[(''name'', VDoc [(''$in'', VList [VStr ''c'', VStr ''d''])])]"
  let ?w = "\<lparr>Offset = 0, Limit = 0\<rparr>"
  have w: "Window (nameQuery (Some ?w)) = Some ?w" by (simp add: nameQuery_def)
  have lim: "mq_limit (applyWindow (mgoSort [''name''] (mgoFind ?qry)) ?w) = Some 0"
    by (simp add: applyWindow_def mgoLimit_def mgoSort_def mgoFind_def)
  have cur: "cursor basicSem basicOrd (mgoSelect [(''_id'', VInt 1)] (applyWindow (mgoSort [''name''] (mgoFind ?qry)) ?w)) fourDocs
      = [namedDoc ''4'' ''c'', namedDoc ''3'' ''d'']"
    by (simp add: cursor_def applyWindow_def mgoLimit_def mgoSort_def mgoFind_def mgoSelect_def
        fourDocs_matching fourDocs_sorted)
  have ids: "selectIDs memEnv (applyWindow (mgoSort [''name''] (mgoFind ?qry)) ?w) fourDocs
      = Inr [VStr ''4'', VStr ''3'']"
    by (simp add: selectIDs_def memEnv_def memCollection_def cur unmarshal_def namedDoc_def)
  have rm: "mgoRemoveAll memEnv [(''_id'', VDoc [(''$in'', VList [VStr ''4'', VStr ''3''])])] fourDocs
      = ((Some 2, None), [namedDoc ''1'' ''a'', namedDoc ''2'' ''b''])"
    by (simp add: memEnv_def memCollection_def in_ids_basicSem fourDocs_def namedDoc_def)
  have "Clear memEnv background (nameQuery (Some ?w)) fourDocs
       = ((2, None), [namedDoc ''1'' ''a'', namedDoc ''2'' ''b''])"
    using memEnv_acquires(1) ids rm
    by (simp add: Clear_def nameQuery_translated nameQuery_sort w background_def)
  with w lim show ?thesis by simp
qed

section \<open>The total of Find\<close>

lemma findLoop_length:
  "findLoop ctx sp k docs acc = Inr items \<Longrightarrow> length items = length acc + length docs"
  by (induction docs arbitrary: k acc) (auto split: option.splits sum.splits)


lemma newItem_panics:
  "m_Payload m = None \<Longrightarrow> newItem sp m = Inl NilMapPanic"
  by (simp add: newItem_def)



text \<open>
  A document that \<^verbatim>\<open>Insert\<close> wrote for an item whose payload has its \<^verbatim>\<open>id\<close> only has no
  field beside the reserved ones; \<^verbatim>\<open>Find\<close> reads it with a nil payload and panics in
  \<^verbatim>\<open>newItem\<close>.
\<close>

lemma Find_panics_on_bare_document:
  "Insert memEnv background
     [\<lparr>ID = VStr ''1'', ETag = ''etag'', Updated = 0, Payload = [(''id'', VStr ''1'')]\<rparr>] []
     = (None, [\<lparr>d_id = VStr ''1'', d_etag = Some ''etag'', d_updated = 0, d_fields = []\<rparr>])
   \<and> Find memEnv background \<lparr>Predicate = [], Sort = [], Window = None\<rparr>
        [\<lparr>d_id = VStr ''1'', d_etag = Some ''etag'', d_updated = 0, d_fields = []\<rparr>]
     = Inl NilMapPanic"
proof -
  let ?d = "\<lparr>d_id = VStr ''1'', d_etag = Some ''etag'', d_updated = 0, d_fields = []\<rparr>"
  have ins: "Insert memEnv background
     [\<lparr>ID = VStr ''1'', ETag = ''etag'', Updated = 0, Payload = [(''id'', VStr ''1'')]\<rparr>] [] = (None, [?d])"
    using memEnv_acquires(1)
    by (simp add: Insert_def background_def memEnv_def memCollection_def newMongoItem_def marshal_def)
  have q: "getQuery \<lparr>Predicate = [], Sort = [], Window = None\<rparr> = Inr []"
    by (simp add: getQuery_def translatePredicate_def)
  have srt: "getSort \<lparr>Predicate = [], Sort = [], Window = None\<rparr> = [''_id'']"
    by (simp add: getSort_def)
  have it: "mgoIter memEnv (mgoSort [''_id''] (mgoFind [])) [?d] = ([unmarshal ?d], None)"
    by (simp add: memEnv_def memCollection_def cursor_def mgoSort_def mgoFind_def sortDocs_def
        basicSem_def)
  have loop: "findLoop background exampleSprint 0 [unmarshal ?d] [] = Inl NilMapPanic"
    by (simp add: background_def newItem_panics unmarshal_def)
  have sp: "Sprint memEnv = exampleSprint" by (simp add: memEnv_def memCollection_def)
  have "Find memEnv background \<lparr>Predicate = [], Sort = [], Window = None\<rparr> [?d] = Inl NilMapPanic"
    using memEnv_acquires(1) it loop by (simp add: Find_def q srt sp)
  with ins show ?thesis by simp
qed




section \<open>Clear with a window\<close>

lemma append_ids: "fold (\<lambda>tmp ids. ids @ [m_ID tmp]) docs acc = acc @ map m_ID docs"
  by (induction docs arbitrary: acc) simp_all

lemma applyWindow_query:
  "applyWindow (mgoSort srt (mgoFind qry)) w =
     \<lparr>mq_filter = qry, mq_sort = srt,
      mq_skip = (if Offset w > 0 then Some (Offset w) else None),
      mq_limit = (if Limit w > -1 then Some (Limit w) else None),
      mq_select = None\<rparr>"
  by (simp add: applyWindow_def mgoSkip_def mgoLimit_def mgoSort_def mgoFind_def)

lemma Clear_windowed:
  assumes "getQuery q = Inr qry" and "Handler_c env ctx = None" and "Window q = Some w"
  shows "Clear env ctx q s =
      (case mgoIter env \<lparr>mq_filter = qry, mq_sort = getSort q,
                         mq_skip = (if Offset w > 0 then Some (Offset w) else None),
                         mq_limit = (if Limit w > -1 then Some (Limit w) else None),
                         mq_select = Some [(''_id'', VInt 1)]\<rparr> s of
         (docs, Some err) \<Rightarrow> ((0, Some err), s)
       | (docs, None) \<Rightarrow>
           (case mgoRemoveAll env [(''_id'', VDoc [(''$in'', VList (map m_ID docs))])] s of
              ((info, err), s') \<Rightarrow>
                ((case info of None \<Rightarrow> 0 | Some removed \<Rightarrow> removed,
                  if err = None then ctx 2 else err), s')))"
proof -
  let ?mq = "\<lparr>mq_filter = qry, mq_sort = getSort q,
             mq_skip = (if Offset w > 0 then Some (Offset w) else None),
             mq_limit = (if Limit w > -1 then Some (Limit w) else None),
             mq_select = Some [(''_id'', VInt 1)]\<rparr>"
  have mq: "mgoSelect [(''_id'', VInt 1)] (applyWindow (mgoSort (getSort q) (mgoFind qry)) w) = ?mq"
    unfolding applyWindow_query by (simp add: mgoSelect_def)
  obtain docs closeErr where it: "mgoIter env ?mq s = (docs, closeErr)"
    by (cases "mgoIter env ?mq s")
  obtain info err s' where
    rm: "mgoRemoveAll env [(''_id'', VDoc [(''$in'', VList (map m_ID docs))])] s = ((info, err), s')"
    by (cases "mgoRemoveAll env [(''_id'', VDoc [(''$in'', VList (map m_ID docs))])] s") auto
  have sel: "selectIDs env (applyWindow (mgoSort (getSort q) (mgoFind qry)) w) s =
      (case closeErr of Some e \<Rightarrow> Inl e | None \<Rightarrow> Inr (map m_ID docs))"
    unfolding selectIDs_def mq it by (simp add: append_ids)
  show ?thesis
  proof (cases closeErr)
    case None
    with sel have "selectIDs env (applyWindow (mgoSort (getSort q) (mgoFind qry)) w) s = Inr (map m_ID docs)"
      by simp
    then have "Clear env ctx q s =
        ((case info of None \<Rightarrow> 0 | Some removed \<Rightarrow> removed, if err = None then ctx 2 else err), s')"
      using assms rm by (simp add: Clear_def split: option.splits split del: if_split)
    with it rm None show ?thesis by (simp split del: if_split)
  next
    case (Some e)
    with sel have "selectIDs env (applyWindow (mgoSort (getSort q) (mgoFind qry)) w) s = Inl e"
      by simp
    then have "Clear env ctx q s = ((0, Some e), s)"
      using assms by (simp add: Clear_def)
    with it Some show ?thesis by (simp split del: if_split)
  qed
qed

lemma windowed_cursor:
  "cursor sem ord \<lparr>mq_filter = qry, mq_sort = srt,
                   mq_skip = (if Offset w > 0 then Some (Offset w) else None),
                   mq_limit = (if Limit w > -1 then Some (Limit w) else None),
                   mq_select = sel\<rparr> coll =
     (let ds = sortDocs (ord srt) (filter (sem qry) coll);
          ds = (if Offset w > 0 then drop (nat (Offset w)) ds else ds);
          ds = (if Limit w > 0 then take (nat (Limit w)) ds else ds)
      in ds)"
  by (simp add: cursor_def Let_def)

lemma selected_documents:
  assumes ids: "distinct (map d_id coll)" and sub: "set ds \<subseteq> set coll"
    and dds: "distinct (map d_id ds)"
  shows "length (filter (\<lambda>d. d_id d \<in> set (map d_id ds)) coll) = length ds"
    and "filter (\<lambda>d. d_id d \<notin> set (map d_id ds)) coll = filter (\<lambda>d. d \<notin> set ds) coll"
proof -
  have inj: "inj_on d_id (set coll)" and dc: "distinct coll"
    using ids by (simp_all add: distinct_map)
  have same: "\<And>d. d \<in> set coll \<Longrightarrow> (d_id d \<in> d_id ` set ds) = (d \<in> set ds)"
  proof -
    fix d assume d: "d \<in> set coll"
    show "(d_id d \<in> d_id ` set ds) = (d \<in> set ds)"
    proof
      assume "d_id d \<in> d_id ` set ds"
      then obtain x where x: "x \<in> set ds" "d_id x = d_id d" by auto
      with sub have "x \<in> set coll" by auto
      with inj d x(2) have "x = d" by (auto dest: inj_onD)
      with x(1) show "d \<in> set ds" by simp
    next
      assume "d \<in> set ds"
      then show "d_id d \<in> d_id ` set ds" by simp
    qed
  qed
  have f: "filter (\<lambda>d. d_id d \<in> set (map d_id ds)) coll = filter (\<lambda>d. d \<in> set ds) coll"
    by (rule filter_cong) (simp_all add: same)
  have "distinct (filter (\<lambda>d. d \<in> set ds) coll)" using dc by simp
  moreover have "set (filter (\<lambda>d. d \<in> set ds) coll) = set ds" using sub by auto
  moreover have "distinct ds" using dds by (simp add: distinct_map)
  ultimately have "length (filter (\<lambda>d. d \<in> set ds) coll) = length ds"
    by (metis distinct_card)
  with f show "length (filter (\<lambda>d. d_id d \<in> set (map d_id ds)) coll) = length ds" by simp
  show "filter (\<lambda>d. d_id d \<notin> set (map d_id ds)) coll = filter (\<lambda>d. d \<notin> set ds) coll"
    by (rule filter_cong) (simp_all add: same)
qed

lemma memCollection_Clear_windowed:
  assumes q: "getQuery q = Inr qry" and c: "ctx 0 = None" and w: "Window q = Some w"
    and ids: "distinct (map d_id coll)"
    and sem_in: "\<forall>ids d. sem [(''_id'', VDoc [(''$in'', VList ids)])] d = (d_id d \<in> set ids)"
  shows "Clear (memCollection sem ord sp) ctx q coll =
      (let ds = sortDocs (ord (getSort q)) (filter (sem qry) coll);
           ds = (if Offset w > 0 then drop (nat (Offset w)) ds else ds);
           ds = (if Limit w > 0 then take (nat (Limit w)) ds else ds)
       in ((int (length ds), ctx 2), filter (\<lambda>d. d \<notin> set ds) coll))"
proof -
  let ?env = "memCollection sem ord sp"
  let ?sorted = "sortDocs (ord (getSort q)) (filter (sem qry) coll)"
  let ?skipped = "if Offset w > 0 then drop (nat (Offset w)) ?sorted else ?sorted"
  let ?ds = "if Limit w > 0 then take (nat (Limit w)) ?skipped else ?skipped"
  have sub0: "set ?sorted \<subseteq> set coll" by (auto simp: set_sortDocs)
  have d0: "distinct (map d_id ?sorted)"
    using ids by (intro distinct_sortDocs) (simp add: distinct_map_filter)
  have sub1: "set ?skipped \<subseteq> set coll"
    using sub0 set_drop_subset[of "nat (Offset w)" ?sorted] by auto
  have d1: "distinct (map d_id ?skipped)"
    using d0 by (simp add: drop_map[symmetric])
  have sub: "set ?ds \<subseteq> set coll"
    using sub1 set_take_subset[of "nat (Limit w)" ?skipped] by auto
  have dds: "distinct (map d_id ?ds)"
    using d1 by (simp add: take_map[symmetric])
  have h: "Handler_c ?env ctx = None"
    using c memCollection_acquires[of ctx sem ord sp] by simp
  have it: "mgoIter ?env \<lparr>mq_filter = qry, mq_sort = getSort q,
                         mq_skip = (if Offset w > 0 then Some (Offset w) else None),
                         mq_limit = (if Limit w > -1 then Some (Limit w) else None),
                         mq_select = Some [(''_id'', VInt 1)]\<rparr> coll = (map unmarshal ?ds, None)"
    unfolding memCollection_def by (simp add: windowed_cursor Let_def)
  have idl: "map m_ID (map unmarshal ?ds) = map d_id ?ds"
    by (simp add: unmarshal_def comp_def)
  have sel: "sem [(''_id'', VDoc [(''$in'', VList (map d_id ?ds))])] = (\<lambda>d. d_id d \<in> set (map d_id ?ds))"
    using sem_in by (simp add: fun_eq_iff)
  have rm: "mgoRemoveAll ?env [(''_id'', VDoc [(''$in'', VList (map m_ID (map unmarshal ?ds)))])] coll
      = ((Some (int (length ?ds)), None), filter (\<lambda>d. d \<notin> set ?ds) coll)"
    unfolding idl memCollection_def
    using selected_documents[OF ids sub dds] by (simp add: sel)
  have "Clear ?env ctx q coll = ((int (length ?ds), ctx 2), filter (\<lambda>d. d \<notin> set ?ds) coll)"
    using Clear_windowed[OF q h w, of coll] it rm by simp
  then show ?thesis by (simp add: Let_def)
qed

lemma memCollection_Clear_first_of_two:
  assumes q: "getQuery q = Inr qry" and c: "ctx 0 = None"
    and w: "Window q = Some \<lparr>Offset = 0, Limit = 1\<rparr>"
    and ids: "distinct (map d_id coll)"
    and sem_in: "\<forall>ids d. sem [(''_id'', VDoc [(''$in'', VList ids)])] d = (d_id d \<in> set ids)"
    and two: "sortDocs (ord (getSort q)) (filter (sem qry) coll) = [d1, d2]"
  shows "Clear (memCollection sem ord sp) ctx q coll = ((1, ctx 2), filter (\<lambda>d. d \<noteq> d1) coll)
       \<and> d1 \<notin> set (filter (\<lambda>d. d \<noteq> d1) coll) \<and> d2 \<in> set (filter (\<lambda>d. d \<noteq> d1) coll)"
proof -
  have "set [d1, d2] = set (filter (sem qry) coll)"
    using set_sortDocs[of "ord (getSort q)" "filter (sem qry) coll"] two by simp
  then have mem: "d2 \<in> set coll" by auto
  have "distinct (map d_id (filter (sem qry) coll))"
    using ids by (simp add: distinct_map_filter)
  from distinct_sortDocs[OF this, of "ord (getSort q)"] two have ne: "d1 \<noteq> d2"
    by auto
  have "Clear (memCollection sem ord sp) ctx q coll = ((1, ctx 2), filter (\<lambda>d. d \<noteq> d1) coll)"
    using memCollection_Clear_windowed[of q qry ctx "\<lparr>Offset = 0, Limit = 1\<rparr>" coll sem ord sp]
      q c w ids sem_in two
    by (simp add: Let_def)
  moreover have "d2 \<in> set (filter (\<lambda>d. d \<noteq> d1) coll)"
    using mem ne by auto
  ultimately show ?thesis by simp
qed

text \<open>
  C6. Whenever the predicate translates to \<open>qry\<close>, the session is acquired and the
  query has a window \<open>w\<close>, \<^verbatim>\<open>Clear\<close> first runs the query \<open>qry\<close>, sorted by \<^verbatim>\<open>getSort\<close>,
  skipping \<^verbatim>\<open>Offset w\<close> documents when that is positive, limited to \<^verbatim>\<open>Limit w\<close> when
  that is above \<open>-1\<close>, and selecting the \<^verbatim>\<open>_id\<close> only; an iterator error is returned
  with a count of zero and nothing removed; otherwise \<^verbatim>\<open>RemoveAll\<close> runs on
  \<^verbatim>\<open>{_id: {$in: ids}}\<close> with the identifiers the query returned, in their order, and
  its count is returned. On the reference store (unique identifiers, a store that
  reads \<^verbatim>\<open>$in\<close> on \<^verbatim>\<open>_id\<close> as membership), \<^verbatim>\<open>Clear\<close> with any window removes exactly the
  documents that remain of the sorted matches after the skip and the limit (a
  limit of zero being no limit) and counts them; with \<^verbatim>\<open>Offset = 0\<close>, \<^verbatim>\<open>Limit = 1\<close> and
  two matches it removes the first in sort order, returns \<open>1\<close>, and leaves the
  second.
\<close>

theorem clear_window_prepass:
  "(getQuery q = Inr qry \<and> Handler_c env ctx = None \<and> Window q = Some w \<longrightarrow>
      Clear env ctx q s =
        (case mgoIter env \<lparr>mq_filter = qry, mq_sort = getSort q,
                           mq_skip = (if Offset w > 0 then Some (Offset w) else None),
                           mq_limit = (if Limit w > -1 then Some (Limit w) else None),
                           mq_select = Some [(''_id'', VInt 1)]\<rparr> s of
           (docs, Some err) \<Rightarrow> ((0, Some err), s)
         | (docs, None) \<Rightarrow>
             (case mgoRemoveAll env [(''_id'', VDoc [(''$in'', VList (map m_ID docs))])] s of
                ((info, err), s') \<Rightarrow>
                  ((case info of None \<Rightarrow> 0 | Some removed \<Rightarrow> removed,
                    if err = None then ctx 2 else err), s'))))
   \<and> (getQuery q' = Inr qry' \<and> ctx' 0 = None \<and> Window q' = Some w'
      \<and> distinct (map d_id coll)
      \<and> (\<forall>ids d. sem [(''_id'', VDoc [(''$in'', VList ids)])] d = (d_id d \<in> set ids))
    \<longrightarrow> Clear (memCollection sem ord sp) ctx' q' coll =
          (let ds = sortDocs (ord (getSort q')) (filter (sem qry') coll);
               ds = (if Offset w' > 0 then drop (nat (Offset w')) ds else ds);
               ds = (if Limit w' > 0 then take (nat (Limit w')) ds else ds)
           in ((int (length ds), ctx' 2), filter (\<lambda>d. d \<notin> set ds) coll)))
   \<and> (getQuery q' = Inr qry' \<and> ctx' 0 = None \<and> Window q' = Some \<lparr>Offset = 0, Limit = 1\<rparr>
      \<and> distinct (map d_id coll)
      \<and> (\<forall>ids d. sem [(''_id'', VDoc [(''$in'', VList ids)])] d = (d_id d \<in> set ids))
      \<and> sortDocs (ord (getSort q')) (filter (sem qry') coll) = [d1, d2]
    \<longrightarrow> Clear (memCollection sem ord sp) ctx' q' coll = ((1, ctx' 2), filter (\<lambda>d. d \<noteq> d1) coll)
        \<and> d1 \<notin> set (filter (\<lambda>d. d \<noteq> d1) coll) \<and> d2 \<in> set (filter (\<lambda>d. d \<noteq> d1) coll))"
proof (intro conjI impI)
  assume "getQuery q = Inr qry \<and> Handler_c env ctx = None \<and> Window q = Some w"
  then show "Clear env ctx q s =
        (case mgoIter env \<lparr>mq_filter = qry, mq_sort = getSort q,
                           mq_skip = (if Offset w > 0 then Some (Offset w) else None),
                           mq_limit = (if Limit w > -1 then Some (Limit w) else None),
                           mq_select = Some [(''_id'', VInt 1)]\<rparr> s of
           (docs, Some err) \<Rightarrow> ((0, Some err), s)
         | (docs, None) \<Rightarrow>
             (case mgoRemoveAll env [(''_id'', VDoc [(''$in'', VList (map m_ID docs))])] s of
                ((info, err), s') \<Rightarrow>
                  ((case info of None \<Rightarrow> 0 | Some removed \<Rightarrow> removed,
                    if err = None then ctx 2 else err), s')))"
    using Clear_windowed[of q qry env ctx w s] by simp
next
  assume "getQuery q' = Inr qry' \<and> ctx' 0 = None \<and> Window q' = Some w'
      \<and> distinct (map d_id coll)
      \<and> (\<forall>ids d. sem [(''_id'', VDoc [(''$in'', VList ids)])] d = (d_id d \<in> set ids))"
  then show "Clear (memCollection sem ord sp) ctx' q' coll =
          (let ds = sortDocs (ord (getSort q')) (filter (sem qry') coll);
               ds = (if Offset w' > 0 then drop (nat (Offset w')) ds else ds);
               ds = (if Limit w' > 0 then take (nat (Limit w')) ds else ds)
           in ((int (length ds), ctx' 2), filter (\<lambda>d. d \<notin> set ds) coll))"
    using memCollection_Clear_windowed[of q' qry' ctx' w' coll sem ord sp] by simp
next
  assume a: "getQuery q' = Inr qry' \<and> ctx' 0 = None \<and> Window q' = Some \<lparr>Offset = 0, Limit = 1\<rparr>
      \<and> distinct (map d_id coll)
      \<and> (\<forall>ids d. sem [(''_id'', VDoc [(''$in'', VList ids)])] d = (d_id d \<in> set ids))
      \<and> sortDocs (ord (getSort q')) (filter (sem qry') coll) = [d1, d2]"
  note r = memCollection_Clear_first_of_two[of q' qry' ctx' coll sem ord d1 d2 sp]
  from a r show "Clear (memCollection sem ord sp) ctx' q' coll = ((1, ctx' 2), filter (\<lambda>d. d \<noteq> d1) coll)"
    by simp
  from a r show "d1 \<notin> set (filter (\<lambda>d. d \<noteq> d1) coll)" by simp
  from a r show "d2 \<in> set (filter (\<lambda>d. d \<noteq> d1) coll)" by simp
qed

theorem clear_window_prepass_witness:
  "Clear memEnv background (nameQuery (Some \<lparr>Offset = 0, Limit = 1\<rparr>)) fourDocs
       = ((1, None), [namedDoc ''1'' ''a'', namedDoc ''2'' ''b'', namedDoc ''3'' ''d''])
   \<and> Clear memEnv background (nameQuery (Some \<lparr>Offset = 1, Limit = 0\<rparr>)) fourDocs
       = ((1, None), [namedDoc ''1'' ''a'', namedDoc ''2'' ''b'', namedDoc ''4'' ''c''])
   \<and> Clear memEnv background (nameQuery (Some \<lparr>Offset = 1, Limit = 1\<rparr>)) fourDocs
       = ((1, None), [namedDoc ''1'' ''a'', namedDoc ''2'' ''b'', namedDoc ''4'' ''c''])
   \<and> Clear memEnv background (nameQuery (Some \<lparr>Offset = 0, Limit = -1\<rparr>)) fourDocs
       = ((2, None), [namedDoc ''1'' ''a'', namedDoc ''2'' ''b''])
   \<and> mgoIter memEnv \<lparr>mq_filter = [(''name'', VDoc [(''$in'', VList [VStr ''c'', VStr ''d''])])],
                      mq_sort = [''name''], mq_skip = Some 1, mq_limit = Some 1,
                      mq_select = Some [(''_id'', VInt 1)]\<rparr> fourDocs
       = ([unmarshal (namedDoc ''3'' ''d'')], None)
   \<and> Clear memEnv background (nameQuery (Some \<lparr>Offset = 1, Limit = 1\<rparr>)) fourDocs
       = (case mgoRemoveAll memEnv [(''_id'', VDoc [(''$in'', VList [VStr ''3''])])] fourDocs of
            ((info, err), s') \<Rightarrow>
              ((case info of None \<Rightarrow> 0 | Some removed \<Rightarrow> removed,
                if err = None then background 2 else err), s'))
   \<and> namedDoc ''4'' ''c'' \<notin> set (filter (\<lambda>d. d \<noteq> namedDoc ''4'' ''c'') fourDocs)
   \<and> namedDoc ''3'' ''d'' \<in> set (filter (\<lambda>d. d \<noteq> namedDoc ''4'' ''c'') fourDocs)"
proof -
  let ?qry = "[(''name'', VDoc [(''$in'', VList [VStr ''c'', VStr ''d''])])]"
  let ?env = "memCollection basicSem basicOrd exampleSprint"
  have srt: "sortDocs (basicOrd (getSort (nameQuery (Some w)))) (filter (basicSem ?qry) fourDocs)
      = [namedDoc ''4'' ''c'', namedDoc ''3'' ''d'']" for w
    by (simp add: nameQuery_sort fourDocs_matching fourDocs_sorted)
  have h: "getQuery (nameQuery (Some w)) = Inr ?qry \<and> background 0 = None
      \<and> Window (nameQuery (Some w)) = Some w
      \<and> distinct (map d_id fourDocs)
      \<and> (\<forall>ids d. basicSem [(''_id'', VDoc [(''$in'', VList ids)])] d = (d_id d \<in> set ids))" for w
    using nameQuery_translated
    by (simp add: nameQuery_window background_def in_ids_basicSem) (simp add: fourDocs_def namedDoc_def)
  have general: "Clear ?env background (nameQuery (Some w)) fourDocs =
      (let ds = [namedDoc ''4'' ''c'', namedDoc ''3'' ''d''];
           ds = (if Offset w > 0 then drop (nat (Offset w)) ds else ds);
           ds = (if Limit w > 0 then take (nat (Limit w)) ds else ds)
       in ((int (length ds), background 2), filter (\<lambda>d. d \<notin> set ds) fourDocs))" for w
    using clear_window_prepass[of _ _ _ _ _ _ "nameQuery (Some w)" ?qry background w fourDocs
        basicSem basicOrd exampleSprint, THEN conjunct2, THEN conjunct1] h[of w]
    unfolding srt by blast
  have keep3: "filter (\<lambda>d. d \<notin> set [namedDoc ''4'' ''c'']) fourDocs
      = [namedDoc ''1'' ''a'', namedDoc ''2'' ''b'', namedDoc ''3'' ''d'']"
    by (simp add: fourDocs_def namedDoc_def)
  have keep4: "filter (\<lambda>d. d \<notin> set [namedDoc ''3'' ''d'']) fourDocs
      = [namedDoc ''1'' ''a'', namedDoc ''2'' ''b'', namedDoc ''4'' ''c'']"
    by (simp add: fourDocs_def namedDoc_def)
  have keep12: "filter (\<lambda>d. d \<notin> set [namedDoc ''4'' ''c'', namedDoc ''3'' ''d'']) fourDocs
      = [namedDoc ''1'' ''a'', namedDoc ''2'' ''b'']"
    by (simp add: fourDocs_def namedDoc_def)
  have c1: "Clear memEnv background (nameQuery (Some \<lparr>Offset = 0, Limit = 1\<rparr>)) fourDocs
       = ((1, None), [namedDoc ''1'' ''a'', namedDoc ''2'' ''b'', namedDoc ''3'' ''d''])"
    using general[of "\<lparr>Offset = 0, Limit = 1\<rparr>"] keep3 by (simp add: memEnv_def background_def)
  have c2: "Clear memEnv background (nameQuery (Some \<lparr>Offset = 1, Limit = 0\<rparr>)) fourDocs
       = ((1, None), [namedDoc ''1'' ''a'', namedDoc ''2'' ''b'', namedDoc ''4'' ''c''])"
    using general[of "\<lparr>Offset = 1, Limit = 0\<rparr>"] keep4 by (simp add: memEnv_def background_def)
  have c3: "Clear memEnv background (nameQuery (Some \<lparr>Offset = 1, Limit = 1\<rparr>)) fourDocs
       = ((1, None), [namedDoc ''1'' ''a'', namedDoc ''2'' ''b'', namedDoc ''4'' ''c''])"
    using general[of "\<lparr>Offset = 1, Limit = 1\<rparr>"] keep4 by (simp add: memEnv_def background_def)
  have c4: "Clear memEnv background (nameQuery (Some \<lparr>Offset = 0, Limit = -1\<rparr>)) fourDocs
       = ((2, None), [namedDoc ''1'' ''a'', namedDoc ''2'' ''b''])"
    using general[of "\<lparr>Offset = 0, Limit = -1\<rparr>"] keep12 by (simp add: memEnv_def background_def)
  have it: "mgoIter memEnv \<lparr>mq_filter = ?qry, mq_sort = [''name''], mq_skip = Some 1, mq_limit = Some 1,
                      mq_select = Some [(''_id'', VInt 1)]\<rparr> fourDocs
       = ([unmarshal (namedDoc ''3'' ''d'')], None)"
    by (simp add: memEnv_def memCollection_def cursor_def fourDocs_matching fourDocs_sorted)
  have ids: "map m_ID [unmarshal (namedDoc ''3'' ''d'')] = [VStr ''3'']"
    by (simp add: unmarshal_def namedDoc_def)
  have pre: "getQuery (nameQuery (Some \<lparr>Offset = 1, Limit = 1\<rparr>)) = Inr ?qry
      \<and> Handler_c memEnv background = None
      \<and> Window (nameQuery (Some \<lparr>Offset = 1, Limit = 1\<rparr>)) = Some \<lparr>Offset = 1, Limit = 1\<rparr>"
    using nameQuery_translated memEnv_acquires(1) by (simp add: nameQuery_window)
  have c5: "Clear memEnv background (nameQuery (Some \<lparr>Offset = 1, Limit = 1\<rparr>)) fourDocs
       = (case mgoRemoveAll memEnv [(''_id'', VDoc [(''$in'', VList [VStr ''3''])])] fourDocs of
            ((info, err), s') \<Rightarrow>
              ((case info of None \<Rightarrow> 0 | Some removed \<Rightarrow> removed,
                if err = None then background 2 else err), s'))"
    using clear_window_prepass[of "nameQuery (Some \<lparr>Offset = 1, Limit = 1\<rparr>)" ?qry memEnv background
        "\<lparr>Offset = 1, Limit = 1\<rparr>" fourDocs, THEN conjunct1] pre it ids
    by (simp add: nameQuery_sort)
  have c6: "namedDoc ''4'' ''c'' \<notin> set (filter (\<lambda>d. d \<noteq> namedDoc ''4'' ''c'') fourDocs)
      \<and> namedDoc ''3'' ''d'' \<in> set (filter (\<lambda>d. d \<noteq> namedDoc ''4'' ''c'') fourDocs)"
    using clear_window_prepass[of _ _ _ _ _ _ "nameQuery (Some \<lparr>Offset = 0, Limit = 1\<rparr>)" ?qry background
        _ fourDocs basicSem basicOrd exampleSprint "namedDoc ''4'' ''c''" "namedDoc ''3'' ''d''",
        THEN conjunct2, THEN conjunct2]
      h[of "\<lparr>Offset = 0, Limit = 1\<rparr>"] srt[of "\<lparr>Offset = 0, Limit = 1\<rparr>"]
    by blast
  show ?thesis using c1 c2 c3 c4 it c5 c6 by simp
qed


end
